theory Spec2Isabelle
  imports Main
begin

section \<open>Errors as values\<close>

text \<open>
  The exceptions the module raises on the paths modelled here. A failed \<open>assert\<close>
  is an \<open>AssertionError\<close>; the constructors raise \<open>ValueError\<close> for a field out
  of range, \<open>OverflowError\<close> for a sol count out of range and \<open>TypeError\<close> for a
  value of the wrong type or a naive/aware mix. Dividing by a zero duration raises
  \<open>ZeroDivisionError\<close>, and the abstract \<open>Mtzinfo\<close> methods raise
  \<open>NotImplementedError\<close>.
\<close>

datatype error =
  AssertionError | ValueError | OverflowError | TypeError | ZeroDivisionError
  | NotImplementedError

text \<open>Sequencing of fallible computations: the first raise wins.\<close>

fun rbind :: "error + 'a \<Rightarrow> ('a \<Rightarrow> error + 'b) \<Rightarrow> error + 'b" where
  "rbind (Inl e) f = Inl e"
| "rbind (Inr v) f = f v"

section \<open>Calendar math\<close>

text \<open>\<open>_is_leap(y)\<close>: Python's \<open>%\<close> on integers is the floor remainder, as \<open>mod\<close> on \<open>int\<close>.\<close>

definition is_leap :: "int \<Rightarrow> bool" where
  "is_leap y =
    (if y \<le> 2000 then
       (if y mod 1000 = 0 then True
        else if y mod 100 = 0 then False
        else if y mod 10 = 0 then True
        else if y mod 2 = 1 then True
        else False)
     else if y \<le> 4800 then
       (if y mod 150 = 0 then False
        else if y mod 10 = 0 then True
        else if y mod 2 = 1 then True
        else False)
     else if y \<le> 6800 then
       (if y mod 200 = 0 then False
        else if y mod 10 = 0 then True
        else if y mod 2 = 1 then True
        else False)
     else if y \<le> 8400 then
       (if y mod 300 = 0 then False
        else if y mod 10 = 0 then True
        else if y mod 2 = 1 then True
        else False)
     else
       (if y mod 600 = 0 then False
        else if y mod 10 = 0 then True
        else if y mod 2 = 1 then True
        else False))"

text \<open>\<open>_sols_before_year(y)\<close>: \<open>//\<close> on integers is floor division, as \<open>div\<close> on \<open>int\<close>.\<close>

definition sols_before_year :: "int \<Rightarrow> int" where
  "sols_before_year y =
    (let x = y - 1 in
     if y \<le> 2000 then y * 669 - x div 2 + x div 10 - x div 100 + x div 1000
     else if y \<le> 4800 then y * 669 - x div 2 + x div 10 - x div 150 - 5
     else if y \<le> 6800 then y * 669 - x div 2 + x div 10 - x div 200 - 13
     else if y \<le> 8400 then y * 669 - x div 2 + x div 10 - x div 300 - 25
     else y * 669 - x div 2 + x div 10 - x div 600 - 39)"

text \<open>\<open>_sols_in_month(y, m)\<close>, with its assertion on the month.\<close>

definition sols_in_month :: "int \<Rightarrow> int \<Rightarrow> error + int" where
  "sols_in_month y m =
    (if \<not> (1 \<le> m \<and> m \<le> 24) then Inl AssertionError
     else if m = 6 \<or> m = 12 \<or> m = 18 then Inr 27
     else if m = 24 \<and> \<not> is_leap y then Inr 27
     else Inr 28)"

text \<open>\<open>_sols_before_month(month)\<close>, with its assertion on the month.\<close>

definition sols_before_month :: "int \<Rightarrow> error + int" where
  "sols_before_month month =
    (if \<not> (1 \<le> month \<and> month \<le> 24) then Inl AssertionError
     else Inr ((month - 1) * 28 - (month - 1) div 6))"

text \<open>\<open>_ymd2ord(year, month, sol)\<close>: both assertions are branches of the model.\<close>

definition ymd2ord :: "int \<Rightarrow> int \<Rightarrow> int \<Rightarrow> error + int" where
  "ymd2ord year month sol =
    (if \<not> (1 \<le> month \<and> month \<le> 24) then Inl AssertionError
     else rbind (sols_in_month year month) (\<lambda>dim.
       if \<not> (1 \<le> sol \<and> sol \<le> dim) then Inl AssertionError
       else rbind (sols_before_month month) (\<lambda>sbm.
         Inr (sols_before_year year + sbm + sol))))"

text \<open>
  The year estimate \<open>int(n // 668.59)\<close>. The literal \<open>668.59\<close> is the IEEE double
  \<open>5880979833718047 / 2 ^ 43\<close> (slightly above 668.59). Floor division of an
  integer by a float converts the integer to a double (exact below \<open>2 ^ 53\<close>) and
  returns the floor of the quotient: CPython takes the exact \<open>fmod\<close> remainder off
  first and snaps the quotient to the nearest integer, so the result is the
  mathematical floor of \<open>n / (5880979833718047 / 2 ^ 43)\<close>.
\<close>

definition year_estimate :: "int \<Rightarrow> int" where
  "year_estimate n = (n * 2 ^ 43) div 5880979833718047"

text \<open>\<open>_ord2ymd(n)\<close>: one correction step for the year, one for the month.\<close>

definition ord2ymd :: "int \<Rightarrow> error + (int \<times> int \<times> int)" where
  "ord2ymd n =
    (let year0 = year_estimate n;
         year = (if n \<le> sols_before_year year0 then year0 - 1
                 else if n > sols_before_year (year0 + 1) then year0 + 1
                 else year0);
         n1 = n - sols_before_year year;
         month0 = n1 div 28 + 1
     in rbind (sols_before_month month0) (\<lambda>sbm0.
        rbind (if n1 \<le> sbm0 then Inr (month0 - 1)
               else if month0 < 24 then
                 rbind (sols_before_month (month0 + 1)) (\<lambda>sbm1.
                   Inr (if n1 > sbm1 then month0 + 1 else month0))
               else Inr month0) (\<lambda>month.
        rbind (sols_before_month month) (\<lambda>sbm.
          Inr (year, month, n1 - sbm)))))"

text \<open>The largest supported ordinal, \<open>_MAXORDINAL\<close>.\<close>

definition MAXORDINAL :: int where
  "MAXORDINAL = 6685945"

text \<open>The valid (year, month, sol) triples, as \<open>_check_date_fields\<close> accepts them.\<close>

definition valid_ymd :: "int \<Rightarrow> int \<Rightarrow> int \<Rightarrow> bool" where
  "valid_ymd year month sol =
    (0 \<le> year \<and> year \<le> 9999 \<and> 1 \<le> month \<and> month \<le> 24 \<and> 1 \<le> sol
     \<and> (case sols_in_month year month of Inl e \<Rightarrow> False | Inr dim \<Rightarrow> sol \<le> dim))"

text \<open>
  The leap rule as the specification words it: a band table of an optional
  always-leap modulus and an exception modulus, then the priority order.
\<close>

definition leap_band :: "int \<Rightarrow> int option \<times> int" where
  "leap_band y =
    (if y \<le> 2000 then (Some 1000, 100)
     else if y \<le> 4800 then (None, 150)
     else if y \<le> 6800 then (None, 200)
     else if y \<le> 8400 then (None, 300)
     else (None, 600))"

definition is_leap_spec :: "int \<Rightarrow> bool" where
  "is_leap_spec y =
    (let (big, exc) = leap_band y in
     if (case big of None \<Rightarrow> False | Some b \<Rightarrow> y mod b = 0) then True
     else if y mod exc = 0 then False
     else if y mod 10 = 0 then True
     else if y mod 2 = 1 then True
     else False)"

text \<open>The sum of \<open>_sols_in_month(y, m)\<close> over a list of months.\<close>

fun sum_sols_in_months :: "int \<Rightarrow> int list \<Rightarrow> error + int" where
  "sum_sols_in_months y [] = Inr 0"
| "sum_sols_in_months y (m # ms) =
     rbind (sols_in_month y m) (\<lambda>d.
     rbind (sum_sols_in_months y ms) (\<lambda>r. Inr (d + r)))"

definition all_months :: "int list" where
  "all_months = [1, 2, 3, 4, 5, 6, 7, 8, 9, 10, 11, 12,
                 13, 14, 15, 16, 17, 18, 19, 20, 21, 22, 23, 24]"

text \<open>
  \<open>_cmp(x, y)\<close> on tuples of integers, which Python compares lexicographically:
  0 when equal, 1 when \<open>x > y\<close>, \<open>-1\<close> otherwise. A tuple is a list of its items.
\<close>

fun cmp :: "int list \<Rightarrow> int list \<Rightarrow> int" where
  "cmp [] [] = 0"
| "cmp [] (y # ys) = - 1"
| "cmp (x # xs) [] = 1"
| "cmp (x # xs) (y # ys) = (if x = y then cmp xs ys else if x > y then 1 else - 1)"

section \<open>Mtimedelta\<close>

text \<open>
  The normalized triple \<open>(_sols, _seconds, _microseconds)\<close>. The slot \<open>_hashcode\<close>
  is a memo of \<open>hash(self._getstate())\<close>; it takes no part in equality,
  comparison or arithmetic and is left out.
\<close>

record Mtimedelta =
  sols :: int
  seconds :: int
  microseconds :: int

text \<open>
  The last lines of \<open>Mtimedelta.__new__\<close> (from "Just a little bit of carrying"
  on): the carry of microseconds into seconds and of seconds into sols, the
  final assertions, the overflow check and the construction. Every branch of
  the constructor ends here with integer \<open>d\<close>, \<open>s\<close> and \<open>microseconds\<close>.
\<close>

definition Mtimedelta_carry :: "int \<Rightarrow> int \<Rightarrow> int \<Rightarrow> error + Mtimedelta" where
  "Mtimedelta_carry d s usecs =
    (let secs = usecs div 1000000;
         us = usecs mod 1000000;
         s1 = s + secs;
         ds = s1 div (24 * 3600);
         s2 = s1 mod (24 * 3600);
         d1 = d + ds
     in if \<not> (0 \<le> s2 \<and> s2 < 24 * 3600) then Inl AssertionError
        else if \<not> (0 \<le> us \<and> us < 1000000) then Inl AssertionError
        else if \<bar>d1\<bar> > 999999999 then Inl OverflowError
        else Inr \<lparr>sols = d1, seconds = s2, microseconds = us\<rparr>)"

text \<open>
  \<open>Mtimedelta.__new__(sols, seconds, microseconds, milliseconds, minutes, hours,
  weeks)\<close> on integer arguments: no \<open>isinstance(_, float)\<close> test holds, so
  \<open>solsecondsfrac\<close>, \<open>secondsfrac\<close> and \<open>usdouble\<close> are \<open>0.0\<close>, and
  \<open>round(microseconds + usdouble)\<close> is \<open>microseconds\<close> itself (an integer below
  \<open>10 ^ 6\<close> is exact as a double). The numeric assertions are branches; the
  \<open>isinstance\<close> assertions hold by typing. Every other constructor call of the
  module (addition, subtraction, negation, the dates) passes integers.
\<close>

definition Mtimedelta_new ::
  "int \<Rightarrow> int \<Rightarrow> int \<Rightarrow> int \<Rightarrow> int \<Rightarrow> int \<Rightarrow> int \<Rightarrow> error + Mtimedelta" where
  "Mtimedelta_new sols_arg seconds_arg microseconds_arg milliseconds minutes hours weeks =
    (let sols1 = sols_arg + weeks * 7;
         seconds1 = seconds_arg + (minutes * 60 + hours * 3600);
         microseconds1 = microseconds_arg + milliseconds * 1000;
         d = sols1;
         s = 0
     in if \<not> (\<bar>s\<bar> \<le> 24 * 3600) then Inl AssertionError
        else
          let sols2 = seconds1 div (24 * 3600);
              seconds2 = seconds1 mod (24 * 3600);
              d = d + sols2;
              s = s + seconds2
          in if \<not> (\<bar>s\<bar> \<le> 2 * 24 * 3600) then Inl AssertionError
             else
               let seconds3 = microseconds1 div 1000000;
                   microseconds2 = microseconds1 mod 1000000;
                   sols3 = seconds3 div (24 * 3600);
                   seconds4 = seconds3 mod (24 * 3600);
                   d = d + sols3;
                   s = s + seconds4
               in if \<not> (\<bar>s\<bar> \<le> 3 * 24 * 3600) then Inl AssertionError
                  else if \<not> (\<bar>microseconds2\<bar> < 3100000) then Inl AssertionError
                  else Mtimedelta_carry d s microseconds2)"

text \<open>\<open>_getstate\<close>, \<open>_cmp\<close> and the comparisons built on it.\<close>

definition Mtimedelta_getstate :: "Mtimedelta \<Rightarrow> int list" where
  "Mtimedelta_getstate t = [sols t, seconds t, microseconds t]"

definition Mtimedelta_cmp :: "Mtimedelta \<Rightarrow> Mtimedelta \<Rightarrow> int" where
  "Mtimedelta_cmp self other = cmp (Mtimedelta_getstate self) (Mtimedelta_getstate other)"

definition Mtimedelta_eq :: "Mtimedelta \<Rightarrow> Mtimedelta \<Rightarrow> bool" where
  "Mtimedelta_eq self other = (Mtimedelta_cmp self other = 0)"

definition Mtimedelta_le :: "Mtimedelta \<Rightarrow> Mtimedelta \<Rightarrow> bool" where
  "Mtimedelta_le self other = (Mtimedelta_cmp self other \<le> 0)"

definition Mtimedelta_lt :: "Mtimedelta \<Rightarrow> Mtimedelta \<Rightarrow> bool" where
  "Mtimedelta_lt self other = (Mtimedelta_cmp self other < 0)"

text \<open>\<open>__bool__\<close>, \<open>__add__\<close>, \<open>__sub__\<close> and \<open>__neg__\<close> on two durations.\<close>

definition Mtimedelta_bool :: "Mtimedelta \<Rightarrow> bool" where
  "Mtimedelta_bool self = (sols self \<noteq> 0 \<or> seconds self \<noteq> 0 \<or> microseconds self \<noteq> 0)"

definition Mtimedelta_add :: "Mtimedelta \<Rightarrow> Mtimedelta \<Rightarrow> error + Mtimedelta" where
  "Mtimedelta_add self other =
    Mtimedelta_new (sols self + sols other) (seconds self + seconds other)
      (microseconds self + microseconds other) 0 0 0 0"

definition Mtimedelta_sub :: "Mtimedelta \<Rightarrow> Mtimedelta \<Rightarrow> error + Mtimedelta" where
  "Mtimedelta_sub self other =
    Mtimedelta_new (sols self - sols other) (seconds self - seconds other)
      (microseconds self - microseconds other) 0 0 0 0"

definition Mtimedelta_neg :: "Mtimedelta \<Rightarrow> error + Mtimedelta" where
  "Mtimedelta_neg self =
    Mtimedelta_new (- sols self) (- seconds self) (- microseconds self) 0 0 0 0"

text \<open>\<open>_to_microseconds\<close>, and \<open>__divmod__\<close>, \<open>__mod__\<close> and \<open>__floordiv__\<close> by a duration.\<close>

definition to_microseconds :: "Mtimedelta \<Rightarrow> int" where
  "to_microseconds self =
    (sols self * (24 * 3600) + seconds self) * 1000000 + microseconds self"

definition Mtimedelta_divmod :: "Mtimedelta \<Rightarrow> Mtimedelta \<Rightarrow> error + (int \<times> Mtimedelta)" where
  "Mtimedelta_divmod self other =
    (if to_microseconds other = 0 then Inl ZeroDivisionError
     else let q = to_microseconds self div to_microseconds other;
              r = to_microseconds self mod to_microseconds other
          in rbind (Mtimedelta_new 0 0 r 0 0 0 0) (\<lambda>rd. Inr (q, rd)))"

definition Mtimedelta_mod :: "Mtimedelta \<Rightarrow> Mtimedelta \<Rightarrow> error + Mtimedelta" where
  "Mtimedelta_mod self other =
    (if to_microseconds other = 0 then Inl ZeroDivisionError
     else Mtimedelta_new 0 0 (to_microseconds self mod to_microseconds other) 0 0 0 0)"

definition Mtimedelta_floordiv :: "Mtimedelta \<Rightarrow> Mtimedelta \<Rightarrow> error + int" where
  "Mtimedelta_floordiv self other =
    (if to_microseconds other = 0 then Inl ZeroDivisionError
     else Inr (to_microseconds self div to_microseconds other))"

text \<open>
  The invariant of a constructed duration, and the net total in microseconds of
  an argument tuple as the specification counts it (1 sol = 86400 seconds,
  1 week = 7 sols).
\<close>

definition normalized :: "Mtimedelta \<Rightarrow> bool" where
  "normalized t =
    (0 \<le> seconds t \<and> seconds t \<le> 86399 \<and> 0 \<le> microseconds t \<and> microseconds t \<le> 999999
     \<and> \<bar>sols t\<bar> \<le> 999999999)"

definition total_microseconds ::
  "int \<Rightarrow> int \<Rightarrow> int \<Rightarrow> int \<Rightarrow> int \<Rightarrow> int \<Rightarrow> int \<Rightarrow> int" where
  "total_microseconds sols_arg seconds_arg microseconds_arg milliseconds minutes hours weeks =
    ((weeks * 7 + sols_arg) * 86400 + hours * 3600 + minutes * 60 + seconds_arg) * 1000000
      + milliseconds * 1000 + microseconds_arg"

text \<open>
  The canonical triple of a total of microseconds: floor quotients and
  remainders, and the overflow check on the sol count.
\<close>

definition of_total :: "int \<Rightarrow> error + Mtimedelta" where
  "of_total T =
    (if \<bar>T div 86400000000\<bar> > 999999999 then Inl OverflowError
     else Inr \<lparr>sols = T div 86400000000, seconds = (T div 1000000) mod 86400,
       microseconds = T mod 1000000\<rparr>)"

section \<open>Mdate\<close>

text \<open>\<open>_check_date_fields\<close> on integers, in the order year, month, sol.\<close>

definition MMINYEAR :: int where
  "MMINYEAR = 0"

definition MMAXYEAR :: int where
  "MMAXYEAR = 9999"

definition check_date_fields :: "int \<Rightarrow> int \<Rightarrow> int \<Rightarrow> error + (int \<times> int \<times> int)" where
  "check_date_fields year month sol =
    (if \<not> (MMINYEAR \<le> year \<and> year \<le> MMAXYEAR) then Inl ValueError
     else if \<not> (1 \<le> month \<and> month \<le> 24) then Inl ValueError
     else rbind (sols_in_month year month) (\<lambda>dim.
       if \<not> (1 \<le> sol \<and> sol \<le> dim) then Inl ValueError
       else Inr (year, month, sol)))"

record Mdate =
  year :: int
  month :: int
  sol :: int

text \<open>
  \<open>Mdate.__new__\<close> on three integers (the branch for a pickled byte string takes a
  \<open>bytes\<close> or \<open>str\<close> first argument and is outside this type), \<open>toordinal\<close>,
  \<open>fromordinal\<close> and \<open>__add__\<close> with a duration.
\<close>

definition Mdate_new :: "int \<Rightarrow> int \<Rightarrow> int \<Rightarrow> error + Mdate" where
  "Mdate_new y m d =
    rbind (check_date_fields y m d) (\<lambda>(y, m, d).
      Inr \<lparr>year = y, month = m, sol = d\<rparr>)"

definition Mdate_toordinal :: "'a Mdate_scheme \<Rightarrow> error + int" where
  "Mdate_toordinal self = ymd2ord (year self) (month self) (sol self)"

definition Mdate_fromordinal :: "int \<Rightarrow> error + Mdate" where
  "Mdate_fromordinal n = rbind (ord2ymd n) (\<lambda>(y, m, d). Mdate_new y m d)"

definition Mdate_add :: "Mdate \<Rightarrow> Mtimedelta \<Rightarrow> error + Mdate" where
  "Mdate_add self other =
    rbind (Mdate_toordinal self) (\<lambda>ord0.
      let ord1 = ord0 + sols other
      in if 0 < ord1 \<and> ord1 \<le> MAXORDINAL then Mdate_fromordinal ord1
         else Inl OverflowError)"

definition valid_Mdate :: "'a Mdate_scheme \<Rightarrow> bool" where
  "valid_Mdate d = valid_ymd (year d) (month d) (sol d)"

section \<open>Time zones\<close>

text \<open>
  The fields of a \<open>Mdatetime\<close> other than its \<open>_tzinfo\<close> (\<open>Mdatetime\<close> is a
  subclass of \<open>Mdate\<close>), which is what a time zone reads of the date-time it is
  asked about: at every call \<open>self._tzinfo.mtcoffset(self)\<close> the \<open>tzinfo\<close> of the
  argument is the zone itself.
\<close>

record Mdatetime_fields = Mdate +
  hour :: int
  minute :: int
  second :: int
  microsecond :: int
  dt_fold :: int

text \<open>
  What a zone's \<open>mtcoffset\<close> method may return: \<open>None\<close>, a \<open>Mtimedelta\<close>, or an
  object of another type.
\<close>

datatype tzresult = RNone | RDelta Mtimedelta | ROther

text \<open>
  A \<open>Mtzinfo\<close> object: its identity (what \<open>is\<close> compares) and its \<open>mtcoffset\<close>
  method, which is given a date-time or \<open>None\<close> and returns or raises. A
  subclass supplies the method; the base class raises \<open>NotImplementedError\<close>.
  The methods \<open>tzname\<close> and \<open>dst\<close> play no part in comparison, hashing or
  addition and are left out.
\<close>

record Mtzinfo =
  tz_id :: nat
  tz_mtcoffset :: "Mdatetime_fields option \<Rightarrow> error + tzresult"

definition is_same :: "Mtzinfo option \<Rightarrow> Mtzinfo option \<Rightarrow> bool" where
  "is_same x y =
    (case (x, y) of
       (None, None) \<Rightarrow> True
     | (Some a, Some b) \<Rightarrow> tz_id a = tz_id b
     | _ \<Rightarrow> False)"

text \<open>
  \<open>_check_mtc_offset(name, offset)\<close>. The source returns nothing; the model hands
  back the offset it has checked, \<open>None\<close> or a \<open>Mtimedelta\<close> strictly between
  \<open>-Mtimedelta(1)\<close> and \<open>Mtimedelta(1)\<close>.
\<close>

definition check_mtc_offset :: "tzresult \<Rightarrow> error + Mtimedelta option" where
  "check_mtc_offset offset =
    (case offset of
       RNone \<Rightarrow> Inr None
     | ROther \<Rightarrow> Inl TypeError
     | RDelta off \<Rightarrow>
         rbind (Mtimedelta_new 1 0 0 0 0 0 0) (\<lambda>one.
         rbind (Mtimedelta_neg one) (\<lambda>minus_one.
         if \<not> Mtimedelta_lt minus_one off then Inl ValueError
         else rbind (Mtimedelta_new 1 0 0 0 0 0 0) (\<lambda>one.
           if \<not> Mtimedelta_lt off one then Inl ValueError
           else Inr (Some off)))))"

text \<open>
  \<open>Mtimezone\<close>, the fixed-offset zone. \<open>_create\<close> allocates the object (the
  model is given its identity) and its \<open>mtcoffset\<close> returns \<open>_offset\<close> for a
  date-time and for \<open>None\<close>. \<open>Mtimezone.mtc\<close> is the object created once at
  import from \<open>Mtimedelta(0)\<close>. The name is stored for \<open>tzname\<close> only.
\<close>

definition Mtimezone_create :: "nat \<Rightarrow> Mtimedelta \<Rightarrow> Mtzinfo" where
  "Mtimezone_create oid offset =
    \<lparr>tz_id = oid, tz_mtcoffset = (\<lambda>dt. Inr (RDelta offset))\<rparr>"

definition Mtimezone_mtc :: Mtzinfo where
  "Mtimezone_mtc = Mtimezone_create 0 \<lparr>sols = 0, seconds = 0, microseconds = 0\<rparr>"

definition Mtimezone_maxoffset :: "error + Mtimedelta" where
  "Mtimezone_maxoffset = Mtimedelta_new 0 0 (- 1) 0 0 24 0"

definition Mtimezone_minoffset :: "error + Mtimedelta" where
  "Mtimezone_minoffset = rbind Mtimezone_maxoffset Mtimedelta_neg"

text \<open>
  \<open>Mtimezone.__new__(offset, name)\<close>; \<open>None\<close> for the name stands for the
  \<open>_Omitted\<close> sentinel.
\<close>

definition Mtimezone_new :: "nat \<Rightarrow> Mtimedelta \<Rightarrow> string option \<Rightarrow> error + Mtzinfo" where
  "Mtimezone_new oid offset name =
    (if name = None \<and> \<not> Mtimedelta_bool offset then Inr Mtimezone_mtc
     else
       rbind Mtimezone_minoffset (\<lambda>lo.
       rbind Mtimezone_maxoffset (\<lambda>hi.
       if \<not> (Mtimedelta_le lo offset \<and> Mtimedelta_le offset hi) then Inl ValueError
       else Inr (Mtimezone_create oid offset))))"

section \<open>Mtime\<close>

text \<open>\<open>_check_time_fields\<close> on integers.\<close>

definition check_time_fields ::
  "int \<Rightarrow> int \<Rightarrow> int \<Rightarrow> int \<Rightarrow> int \<Rightarrow> error + (int \<times> int \<times> int \<times> int \<times> int)" where
  "check_time_fields h mi s us f =
    (if \<not> (0 \<le> h \<and> h \<le> 23) then Inl ValueError
     else if \<not> (0 \<le> mi \<and> mi \<le> 59) then Inl ValueError
     else if \<not> (0 \<le> s \<and> s \<le> 59) then Inl ValueError
     else if \<not> (0 \<le> us \<and> us \<le> 999999) then Inl ValueError
     else if \<not> (f = 0 \<or> f = 1) then Inl ValueError
     else Inr (h, mi, s, us, f))"

record Mtime =
  t_hour :: int
  t_minute :: int
  t_second :: int
  t_microsecond :: int
  t_tzinfo :: "Mtzinfo option"
  t_fold :: int

definition Mtime_new ::
  "int \<Rightarrow> int \<Rightarrow> int \<Rightarrow> int \<Rightarrow> Mtzinfo option \<Rightarrow> int \<Rightarrow> error + Mtime" where
  "Mtime_new h mi s us tz f =
    rbind (check_time_fields h mi s us f) (\<lambda>(h, mi, s, us, f).
      Inr \<lparr>t_hour = h, t_minute = mi, t_second = s, t_microsecond = us,
           t_tzinfo = tz, t_fold = f\<rparr>)"

definition Mtime_mtcoffset :: "Mtime \<Rightarrow> error + Mtimedelta option" where
  "Mtime_mtcoffset self =
    (case t_tzinfo self of
       None \<Rightarrow> Inr None
     | Some tz \<Rightarrow> rbind (tz_mtcoffset tz None) check_mtc_offset)"

text \<open>\<open>self.replace(fold=f)\<close>: the constructor on the fields of \<open>self\<close> and the new fold.\<close>

definition Mtime_replace_fold :: "Mtime \<Rightarrow> int \<Rightarrow> error + Mtime" where
  "Mtime_replace_fold self f =
    Mtime_new (t_hour self) (t_minute self) (t_second self) (t_microsecond self)
      (t_tzinfo self) f"

text \<open>\<open>bytes(xs)\<close> raises \<open>ValueError\<close> unless every item is in \<open>range(256)\<close>.\<close>

definition to_bytes :: "int list \<Rightarrow> error + int list" where
  "to_bytes xs = (if list_all (\<lambda>x. 0 \<le> x \<and> x < 256) xs then Inr xs else Inl ValueError)"

text \<open>\<open>self._getstate()[0]\<close> with the default protocol 3, where the fold is not packed.\<close>

definition Mtime_getstate_bytes :: "Mtime \<Rightarrow> error + int list" where
  "Mtime_getstate_bytes self =
    (let us2 = t_microsecond self div 256;
         us3 = t_microsecond self mod 256;
         us1 = us2 div 256;
         us2 = us2 mod 256;
         h = t_hour self
     in to_bytes [h, t_minute self, t_second self, us1, us2, us3])"

text \<open>
  \<open>Mtime.__hash__\<close> on an object whose \<open>_hashcode\<close> is still \<open>-1\<close>. The model
  returns the value that is handed to the builtin \<open>hash\<close>: the state bytes, or
  the tuple \<open>(h, m, second, microsecond)\<close>. In the branch \<open>0 <= h < 24\<close> the
  source hashes a new naive \<open>Mtime\<close>, which in turn hashes its state bytes.
\<close>

datatype hash_key = HashBytes "int list" | HashTuple "int list"

definition Mtime_hash :: "Mtime \<Rightarrow> error + hash_key" where
  "Mtime_hash self =
    rbind (if t_fold self \<noteq> 0 then Mtime_replace_fold self 0 else Inr self) (\<lambda>t.
    rbind (Mtime_mtcoffset t) (\<lambda>tzoff.
    let of_state = rbind (Mtime_getstate_bytes t) (\<lambda>b. Inr (HashBytes b))
    in case tzoff of
         None \<Rightarrow> of_state
       | Some off \<Rightarrow>
           if \<not> Mtimedelta_bool off then of_state
           else
             rbind (Mtimedelta_new 0 0 0 0 (t_minute self) (t_hour self) 0) (\<lambda>wall.
             rbind (Mtimedelta_sub wall off) (\<lambda>shifted.
             rbind (Mtimedelta_new 0 0 0 0 0 1 0) (\<lambda>one_hour.
             rbind (Mtimedelta_divmod shifted one_hour) (\<lambda>(h, m).
             rbind (Mtimedelta_new 0 0 0 0 1 0 0) (\<lambda>one_minute.
             rbind (Mtimedelta_mod m one_minute) (\<lambda>part.
             if Mtimedelta_bool part then Inl AssertionError
             else
               rbind (Mtimedelta_new 0 0 0 0 1 0 0) (\<lambda>one_minute.
               rbind (Mtimedelta_floordiv m one_minute) (\<lambda>m.
               if 0 \<le> h \<and> h < 24 then
                 rbind (Mtime_new h m (t_second self) (t_microsecond self) None 0)
                   (\<lambda>naive.
                 rbind (Mtime_getstate_bytes naive) (\<lambda>b. Inr (HashBytes b)))
               else Inr (HashTuple [h, m, t_second self, t_microsecond self])))))))))))"

section \<open>Mdatetime\<close>

record Mdatetime = Mdatetime_fields +
  tzinfo :: "Mtzinfo option"

text \<open>
  \<open>Mdatetime.__new__\<close> on integers (the branch for a pickled byte string is
  outside this type), and \<open>replace(fold=f)\<close>.
\<close>

definition Mdatetime_new ::
  "int \<Rightarrow> int \<Rightarrow> int \<Rightarrow> int \<Rightarrow> int \<Rightarrow> int \<Rightarrow> int \<Rightarrow> Mtzinfo option \<Rightarrow> int
    \<Rightarrow> error + Mdatetime" where
  "Mdatetime_new y m d h mi s us tz f =
    rbind (check_date_fields y m d) (\<lambda>(y, m, d).
    rbind (check_time_fields h mi s us f) (\<lambda>(h, mi, s, us, f).
      Inr \<lparr>year = y, month = m, sol = d, hour = h, minute = mi, second = s,
           microsecond = us, dt_fold = f, tzinfo = tz\<rparr>))"

definition Mdatetime_replace_fold :: "Mdatetime \<Rightarrow> int \<Rightarrow> error + Mdatetime" where
  "Mdatetime_replace_fold self f =
    Mdatetime_new (year self) (month self) (sol self) (hour self) (minute self)
      (second self) (microsecond self) (tzinfo self) f"

text \<open>What the zone reads of \<open>self\<close>, and \<open>Mdatetime.mtcoffset\<close>.\<close>

definition fields_of :: "Mdatetime \<Rightarrow> Mdatetime_fields" where
  "fields_of self =
    \<lparr>year = year self, month = month self, sol = sol self, hour = hour self,
     minute = minute self, second = second self, microsecond = microsecond self,
     dt_fold = dt_fold self\<rparr>"

definition Mdatetime_mtcoffset :: "Mdatetime \<Rightarrow> error + Mtimedelta option" where
  "Mdatetime_mtcoffset self =
    (case tzinfo self of
       None \<Rightarrow> Inr None
     | Some tz \<Rightarrow> rbind (tz_mtcoffset tz (Some (fields_of self))) check_mtc_offset)"

text \<open>\<open>Mdatetime.__sub__\<close> on another \<open>Mdatetime\<close>.\<close>

definition Mdatetime_sub :: "Mdatetime \<Rightarrow> Mdatetime \<Rightarrow> error + Mtimedelta" where
  "Mdatetime_sub self other =
    rbind (Mdate_toordinal self) (\<lambda>sols1.
    rbind (Mdate_toordinal other) (\<lambda>sols2.
    let secs1 = second self + minute self * 60 + hour self * 3600;
        secs2 = second other + minute other * 60 + hour other * 3600
    in rbind (Mtimedelta_new (sols1 - sols2) (secs1 - secs2)
               (microsecond self - microsecond other) 0 0 0 0) (\<lambda>base.
       if is_same (tzinfo self) (tzinfo other) then Inr base
       else
         rbind (Mdatetime_mtcoffset self) (\<lambda>myoff.
         rbind (Mdatetime_mtcoffset other) (\<lambda>otoff.
         if myoff = otoff then Inr base
         else
           (case (myoff, otoff) of
              (Some my, Some ot) \<Rightarrow>
                rbind (Mtimedelta_add base ot) (\<lambda>x. Mtimedelta_sub x my)
            | _ \<Rightarrow> Inl TypeError))))))"

text \<open>
  \<open>Mdatetime._cmp(other, allow_mixed)\<close> on another \<open>Mdatetime\<close>. \<open>not self.fold\<close>
  is \<open>True\<close>, which the constructor takes as fold 1, when the fold is 0, and
  \<open>False\<close> otherwise. Two offsets are unequal under \<open>!=\<close> when one of them is
  \<open>None\<close> and the other is not, or when their triples differ.
\<close>

definition Mdatetime_cmp :: "Mdatetime \<Rightarrow> Mdatetime \<Rightarrow> bool \<Rightarrow> error + int" where
  "Mdatetime_cmp self other allow_mixed =
    (let base = cmp [year self, month self, sol self, hour self, minute self,
                     second self, microsecond self]
                    [year other, month other, sol other, hour other, minute other,
                     second other, microsecond other]
     in if is_same (tzinfo self) (tzinfo other) then Inr base
        else
          rbind (Mdatetime_mtcoffset self) (\<lambda>myoff.
          rbind (Mdatetime_mtcoffset other) (\<lambda>otoff.
          rbind (if allow_mixed then
                   rbind (Mdatetime_replace_fold self (if dt_fold self = 0 then 1 else 0))
                     (\<lambda>self_flipped.
                   rbind (Mdatetime_mtcoffset self_flipped) (\<lambda>myoff_flipped.
                   if myoff \<noteq> myoff_flipped then Inr True
                   else
                     rbind (Mdatetime_replace_fold other (if dt_fold other = 0 then 1 else 0))
                       (\<lambda>other_flipped.
                     rbind (Mdatetime_mtcoffset other_flipped) (\<lambda>otoff_flipped.
                     Inr (otoff \<noteq> otoff_flipped)))))
                 else Inr False) (\<lambda>return_2.
          if return_2 then Inr 2
          else if myoff = otoff then Inr base
          else if myoff = None \<or> otoff = None then
            (if allow_mixed then Inr 2 else Inl TypeError)
          else
            rbind (Mdatetime_sub self other) (\<lambda>diff.
            if sols diff < 0 then Inr (- 1)
            else Inr (if Mtimedelta_bool diff then 1 else 0))))))"

text \<open>\<open>__eq__\<close>, \<open>__le__\<close>, \<open>__lt__\<close>, \<open>__ge__\<close> and \<open>__gt__\<close> on another \<open>Mdatetime\<close>.\<close>

definition Mdatetime_eq :: "Mdatetime \<Rightarrow> Mdatetime \<Rightarrow> error + bool" where
  "Mdatetime_eq self other = rbind (Mdatetime_cmp self other True) (\<lambda>c. Inr (c = 0))"

definition Mdatetime_le :: "Mdatetime \<Rightarrow> Mdatetime \<Rightarrow> error + bool" where
  "Mdatetime_le self other = rbind (Mdatetime_cmp self other False) (\<lambda>c. Inr (c \<le> 0))"

definition Mdatetime_lt :: "Mdatetime \<Rightarrow> Mdatetime \<Rightarrow> error + bool" where
  "Mdatetime_lt self other = rbind (Mdatetime_cmp self other False) (\<lambda>c. Inr (c < 0))"

definition Mdatetime_ge :: "Mdatetime \<Rightarrow> Mdatetime \<Rightarrow> error + bool" where
  "Mdatetime_ge self other = rbind (Mdatetime_cmp self other False) (\<lambda>c. Inr (c \<ge> 0))"

definition Mdatetime_gt :: "Mdatetime \<Rightarrow> Mdatetime \<Rightarrow> error + bool" where
  "Mdatetime_gt self other = rbind (Mdatetime_cmp self other False) (\<lambda>c. Inr (c > 0))"



text \<open>The date-times the constructor accepts.\<close>

definition valid_Mdatetime :: "Mdatetime \<Rightarrow> bool" where
  "valid_Mdatetime dt =
    (valid_ymd (year dt) (month dt) (sol dt)
     \<and> 0 \<le> hour dt \<and> hour dt \<le> 23 \<and> 0 \<le> minute dt \<and> minute dt \<le> 59
     \<and> 0 \<le> second dt \<and> second dt \<le> 59
     \<and> 0 \<le> microsecond dt \<and> microsecond dt \<le> 999999
     \<and> (dt_fold dt = 0 \<or> dt_fold dt = 1))"

text \<open>
  A subclass of \<open>Mtzinfo\<close> whose \<open>mtcoffset\<close> reads the fold of the date-time:
  one hour for fold 0, and two sols, which \<open>_check_mtc_offset\<close> rejects, for
  fold 1.
\<close>

definition fold_sensitive_zone :: Mtzinfo where
  "fold_sensitive_zone =
    \<lparr>tz_id = 1,
     tz_mtcoffset = (\<lambda>dt. case dt of
         None \<Rightarrow> Inr RNone
       | Some f \<Rightarrow>
           if dt_fold f = 0 then Inr (RDelta \<lparr>sols = 0, seconds = 3600, microseconds = 0\<rparr>)
           else Inr (RDelta \<lparr>sols = 2, seconds = 0, microseconds = 0\<rparr>))\<rparr>"

section \<open>Properties of the calendar math\<close>

subsection \<open>One year's sols\<close>

text \<open>Stepping a floor division by one: the quotient grows exactly at the multiples.\<close>

lemma div_step:
  fixes y k :: int
  assumes "0 < k"
  shows "y div k = (y - 1) div k + (if y mod k = 0 then 1 else 0)"
proof (cases "y mod k = 0")
  case True
  have "y = k * (y div k) + y mod k" by simp
  with True have "y = k * (y div k)" by simp
  then have "y - 1 = k * (y div k - 1) + (k - 1)" by (simp add: algebra_simps)
  then have "(y - 1) div k = y div k - 1"
    using assms int_div_pos_eq[of "y - 1" k "y div k - 1" "k - 1"] by simp
  with True show ?thesis by simp
next
  case False
  have "y = k * (y div k) + y mod k" by simp
  then have e: "y - 1 = k * (y div k) + (y mod k - 1)" by simp
  have "0 \<le> y mod k" "y mod k < k" using assms by simp_all
  with False have "0 \<le> y mod k - 1" "y mod k - 1 < k" by simp_all
  with e have "(y - 1) div k = y div k"
    using int_div_pos_eq[of "y - 1" k "y div k" "y mod k - 1"] by simp
  with False show ?thesis by simp
qed

lemma mod_chain:
  fixes y :: int
  shows "y mod 1000 = 0 \<Longrightarrow> y mod 100 = 0"
    and "y mod 100 = 0 \<Longrightarrow> y mod 10 = 0"
    and "y mod 10 = 0 \<Longrightarrow> y mod 2 = 0"
    and "y mod 150 = 0 \<Longrightarrow> y mod 10 = 0"
    and "y mod 200 = 0 \<Longrightarrow> y mod 10 = 0"
    and "y mod 300 = 0 \<Longrightarrow> y mod 10 = 0"
    and "y mod 600 = 0 \<Longrightarrow> y mod 10 = 0"
proof -
  show "y mod 1000 = 0 \<Longrightarrow> y mod 100 = 0" using mod_mod_cancel[of 100 1000 y] by simp
  show "y mod 100 = 0 \<Longrightarrow> y mod 10 = 0" using mod_mod_cancel[of 10 100 y] by simp
  show "y mod 10 = 0 \<Longrightarrow> y mod 2 = 0" using mod_mod_cancel[of 2 10 y] by simp
  show "y mod 150 = 0 \<Longrightarrow> y mod 10 = 0" using mod_mod_cancel[of 10 150 y] by simp
  show "y mod 200 = 0 \<Longrightarrow> y mod 10 = 0" using mod_mod_cancel[of 10 200 y] by simp
  show "y mod 300 = 0 \<Longrightarrow> y mod 10 = 0" using mod_mod_cancel[of 10 300 y] by simp
  show "y mod 600 = 0 \<Longrightarrow> y mod 10 = 0" using mod_mod_cancel[of 10 600 y] by simp
qed

lemma mod2_cases: "(y::int) mod 2 = 0 \<or> y mod 2 = 1"
  by presburger

lemma step_arith1:
  fixes d2 d2' d10 d10' d100 d100' d1000 d1000' m2 m10 m100 m1000 y :: int
  assumes "d2 = d2' + (if m2 = 0 then 1 else 0)"
    and "d10 = d10' + (if m10 = 0 then 1 else 0)"
    and "d100 = d100' + (if m100 = 0 then 1 else 0)"
    and "d1000 = d1000' + (if m1000 = 0 then 1 else 0)"
    and "m1000 = 0 \<Longrightarrow> m100 = 0" "m100 = 0 \<Longrightarrow> m10 = 0" "m10 = 0 \<Longrightarrow> m2 = 0"
    and "m2 = 0 \<or> m2 = 1"
  shows "((y + 1) * 669 - d2 + d10 - d100 + d1000) - (y * 669 - d2' + d10' - d100' + d1000')
    = (if (if m1000 = 0 then True else if m100 = 0 then False
          else if m10 = 0 then True else if m2 = 1 then True else False) then 669 else 668)"
  using assms by (auto simp: algebra_simps)

lemma step_arith:
  fixes d2 d2' d10 d10' dk dk' m2 m10 mk y c :: int
  assumes "d2 = d2' + (if m2 = 0 then 1 else 0)"
    and "d10 = d10' + (if m10 = 0 then 1 else 0)"
    and "dk = dk' + (if mk = 0 then 1 else 0)"
    and "mk = 0 \<Longrightarrow> m10 = 0" "m10 = 0 \<Longrightarrow> m2 = 0"
    and "m2 = 0 \<or> m2 = 1"
  shows "((y + 1) * 669 - d2 + d10 - dk - c) - (y * 669 - d2' + d10' - dk' - c)
    = (if (if mk = 0 then False
          else if m10 = 0 then True else if m2 = 1 then True else False) then 669 else 668)"
  using assms by (auto simp: algebra_simps)

lemma step_band1:
  assumes "y < 2000"
  shows "sols_before_year (y + 1) - sols_before_year y = (if is_leap y then 669 else 668)"
proof -
  have a: "sols_before_year (y + 1) = (y + 1) * 669 - y div 2 + y div 10 - y div 100 + y div 1000"
    using assms by (simp add: sols_before_year_def Let_def)
  have b: "sols_before_year y = y * 669 - (y - 1) div 2 + (y - 1) div 10 - (y - 1) div 100 + (y - 1) div 1000"
    using assms by (simp add: sols_before_year_def Let_def)
  have c: "is_leap y = (if y mod 1000 = 0 then True else if y mod 100 = 0 then False
      else if y mod 10 = 0 then True else if y mod 2 = 1 then True else False)"
    using assms by (simp add: is_leap_def)
  show ?thesis
    unfolding a b c
    by (rule step_arith1[OF div_step div_step div_step div_step mod_chain(1,2,3) mod2_cases]) simp_all
qed

lemma step_band:
  assumes a: "sols_before_year (y + 1) = (y + 1) * 669 - y div 2 + y div 10 - y div k - c"
    and b: "sols_before_year y = y * 669 - (y - 1) div 2 + (y - 1) div 10 - (y - 1) div k - c"
    and c: "is_leap y = (if y mod k = 0 then False
      else if y mod 10 = 0 then True else if y mod 2 = 1 then True else False)"
    and k: "0 < k" "y mod k = 0 \<Longrightarrow> y mod 10 = 0"
  shows "sols_before_year (y + 1) - sols_before_year y = (if is_leap y then 669 else 668)"
  unfolding a b c
  by (rule step_arith[OF div_step div_step div_step k(2) mod_chain(3) mod2_cases]) (simp_all add: k(1))

lemma step_band2:
  assumes "2000 < y" "y < 4800"
  shows "sols_before_year (y + 1) - sols_before_year y = (if is_leap y then 669 else 668)"
proof (rule step_band[where k = 150 and c = 5])
  show "sols_before_year (y + 1) = (y + 1) * 669 - y div 2 + y div 10 - y div 150 - 5"
    using assms by (simp add: sols_before_year_def Let_def)
  show "sols_before_year y = y * 669 - (y - 1) div 2 + (y - 1) div 10 - (y - 1) div 150 - 5"
    using assms by (simp add: sols_before_year_def Let_def)
  show "is_leap y = (if y mod 150 = 0 then False
      else if y mod 10 = 0 then True else if y mod 2 = 1 then True else False)"
    using assms by (simp add: is_leap_def)
qed (simp_all add: mod_chain)

lemma step_band3:
  assumes "4800 < y" "y < 6800"
  shows "sols_before_year (y + 1) - sols_before_year y = (if is_leap y then 669 else 668)"
proof (rule step_band[where k = 200 and c = 13])
  show "sols_before_year (y + 1) = (y + 1) * 669 - y div 2 + y div 10 - y div 200 - 13"
    using assms by (simp add: sols_before_year_def Let_def)
  show "sols_before_year y = y * 669 - (y - 1) div 2 + (y - 1) div 10 - (y - 1) div 200 - 13"
    using assms by (simp add: sols_before_year_def Let_def)
  show "is_leap y = (if y mod 200 = 0 then False
      else if y mod 10 = 0 then True else if y mod 2 = 1 then True else False)"
    using assms by (simp add: is_leap_def)
qed (simp_all add: mod_chain)

lemma step_band4:
  assumes "6800 < y" "y < 8400"
  shows "sols_before_year (y + 1) - sols_before_year y = (if is_leap y then 669 else 668)"
proof (rule step_band[where k = 300 and c = 25])
  show "sols_before_year (y + 1) = (y + 1) * 669 - y div 2 + y div 10 - y div 300 - 25"
    using assms by (simp add: sols_before_year_def Let_def)
  show "sols_before_year y = y * 669 - (y - 1) div 2 + (y - 1) div 10 - (y - 1) div 300 - 25"
    using assms by (simp add: sols_before_year_def Let_def)
  show "is_leap y = (if y mod 300 = 0 then False
      else if y mod 10 = 0 then True else if y mod 2 = 1 then True else False)"
    using assms by (simp add: is_leap_def)
qed (simp_all add: mod_chain)

lemma step_band5:
  assumes "8400 < y"
  shows "sols_before_year (y + 1) - sols_before_year y = (if is_leap y then 669 else 668)"
proof (rule step_band[where k = 600 and c = 39])
  show "sols_before_year (y + 1) = (y + 1) * 669 - y div 2 + y div 10 - y div 600 - 39"
    using assms by (simp add: sols_before_year_def Let_def)
  show "sols_before_year y = y * 669 - (y - 1) div 2 + (y - 1) div 10 - (y - 1) div 600 - 39"
    using assms by (simp add: sols_before_year_def Let_def)
  show "is_leap y = (if y mod 600 = 0 then False
      else if y mod 10 = 0 then True else if y mod 2 = 1 then True else False)"
    using assms by (simp add: is_leap_def)
qed (simp_all add: mod_chain)

lemma sols_before_year_step: "sols_before_year (y + 1) - sols_before_year y = (if is_leap y then 669 else 668)"
proof -
  consider "y < 2000" | "y = 2000" | "2000 < y" "y < 4800" | "y = 4800" | "4800 < y" "y < 6800"
    | "y = 6800" | "6800 < y" "y < 8400" | "y = 8400" | "8400 < y" by linarith
  then show ?thesis
  proof cases
    case 1 then show ?thesis by (rule step_band1)
  next
    case 2 then show ?thesis by (simp add: sols_before_year_def Let_def is_leap_def)
  next
    case 3 then show ?thesis by (rule step_band2)
  next
    case 4 then show ?thesis by (simp add: sols_before_year_def Let_def is_leap_def)
  next
    case 5 then show ?thesis by (rule step_band3)
  next
    case 6 then show ?thesis by (simp add: sols_before_year_def Let_def is_leap_def)
  next
    case 7 then show ?thesis by (rule step_band4)
  next
    case 8 then show ?thesis by (simp add: sols_before_year_def Let_def is_leap_def)
  next
    case 9 then show ?thesis by (rule step_band5)
  qed
qed

lemma sum_sols_in_months_all:
  "sum_sols_in_months y all_months = Inr (if is_leap y then 669 else 668)"
  by (simp add: all_months_def sols_in_month_def)

subsection \<open>The year estimate and the month search\<close>

lemma div_bounds:
  fixes x k :: int
  assumes "0 < k"
  shows "k * (x div k) \<le> x" and "x < k * (x div k) + k"
proof -
  have e: "x = k * (x div k) + x mod k" by simp
  have "0 \<le> x mod k" "x mod k < k" using assms by simp_all
  with e show "k * (x div k) \<le> x" and "x < k * (x div k) + k" by linarith+
qed

lemma bound_arith1:
  fixes d2 d10 d100 d1000 y :: int
  assumes "0 \<le> y" "y \<le> 2000"
    and "2 * d2 \<le> y - 1" "y - 1 < 2 * d2 + 2"
    and "10 * d10 \<le> y - 1" "y - 1 < 10 * d10 + 10"
    and "100 * d100 \<le> y - 1" "y - 1 < 100 * d100 + 100"
    and "1000 * d1000 \<le> y - 1" "y - 1 < 1000 * d1000 + 1000"
  shows "66859 * y - 200 \<le> 100 * (y * 669 - d2 + d10 - d100 + d1000)"
    and "100 * (y * 669 - d2 + d10 - d100 + d1000) \<le> 66859 * y + 10000"
  using assms by (simp_all add: algebra_simps)

lemma bound_arith:
  fixes d2 d10 dk y k c :: int
  assumes "0 \<le> y" "y \<le> 10000"
    and "2 * d2 \<le> y - 1" "y - 1 < 2 * d2 + 2"
    and "10 * d10 \<le> y - 1" "y - 1 < 10 * d10 + 10"
    and "k * dk \<le> y - 1" "y - 1 < k * dk + k"
    and "(k = 150 \<and> c = 5 \<and> 2000 < y) \<or> (k = 200 \<and> c = 13 \<and> 4800 < y)
       \<or> (k = 300 \<and> c = 25 \<and> 6800 < y) \<or> (k = 600 \<and> c = 39 \<and> 8400 < y)"
  shows "66859 * y - 200 \<le> 100 * (y * 669 - d2 + d10 - dk - c)"
    and "100 * (y * 669 - d2 + d10 - dk - c) \<le> 66859 * y + 10000"
  using assms by (auto simp add: algebra_simps)

lemma sols_before_year_bounds:
  assumes "0 \<le> y" "y \<le> 10000"
  shows "66859 * y - 200 \<le> 100 * sols_before_year y"
    and "100 * sols_before_year y \<le> 66859 * y + 10000"
proof -
  note d2 = div_bounds[of 2 "y - 1"] and d10 = div_bounds[of 10 "y - 1"]
  consider "y \<le> 2000" | "2000 < y" "y \<le> 4800" | "4800 < y" "y \<le> 6800"
    | "6800 < y" "y \<le> 8400" | "8400 < y" by linarith
  then have "66859 * y - 200 \<le> 100 * sols_before_year y
      \<and> 100 * sols_before_year y \<le> 66859 * y + 10000"
  proof cases
    case 1
    then have e: "sols_before_year y =
        y * 669 - (y - 1) div 2 + (y - 1) div 10 - (y - 1) div 100 + (y - 1) div 1000"
      by (simp add: sols_before_year_def Let_def)
    show ?thesis unfolding e
      by (intro conjI bound_arith1 assms 1 d2 d10 div_bounds) simp_all
  next
    case 2
    then have e: "sols_before_year y = y * 669 - (y - 1) div 2 + (y - 1) div 10 - (y - 1) div 150 - 5"
      by (simp add: sols_before_year_def Let_def)
    show ?thesis unfolding e
      by (intro conjI bound_arith[where k = 150] assms d2 d10 div_bounds) (simp_all add: 2)
  next
    case 3
    then have e: "sols_before_year y = y * 669 - (y - 1) div 2 + (y - 1) div 10 - (y - 1) div 200 - 13"
      by (simp add: sols_before_year_def Let_def)
    show ?thesis unfolding e
      by (intro conjI bound_arith[where k = 200] assms d2 d10 div_bounds) (simp_all add: 3)
  next
    case 4
    then have e: "sols_before_year y = y * 669 - (y - 1) div 2 + (y - 1) div 10 - (y - 1) div 300 - 25"
      by (simp add: sols_before_year_def Let_def)
    show ?thesis unfolding e
      by (intro conjI bound_arith[where k = 300] assms d2 d10 div_bounds) (simp_all add: 4)
  next
    case 5
    then have e: "sols_before_year y = y * 669 - (y - 1) div 2 + (y - 1) div 10 - (y - 1) div 600 - 39"
      by (simp add: sols_before_year_def Let_def)
    show ?thesis unfolding e
      by (intro conjI bound_arith[where k = 600] assms d2 d10 div_bounds) (simp_all add: 5)
  qed
  then show "66859 * y - 200 \<le> 100 * sols_before_year y"
    and "100 * sols_before_year y \<le> 66859 * y + 10000" by blast+
qed

lemma estimate_arith:
  fixes e n y :: int
  assumes "5880979833718047 * e \<le> n * 8796093022208"
    and "n * 8796093022208 < 5880979833718047 * e + 5880979833718047"
    and "66859 * y - 100 \<le> 100 * n" and "100 * n \<le> 66859 * y + 76859"
    and "0 \<le> y" and "y \<le> 9999"
  shows "y - 1 \<le> e" and "e \<le> y + 1"
  using assms by linarith+

lemma year_estimate_near:
  assumes "0 \<le> y" "y \<le> 9999" "sols_before_year y < n" "n \<le> sols_before_year (y + 1)"
  shows "y - 1 \<le> year_estimate n" and "year_estimate n \<le> y + 1"
proof -
  have "66859 * y - 200 \<le> 100 * sols_before_year y"
    using assms by (intro sols_before_year_bounds) simp_all
  then have lo: "66859 * y - 100 \<le> 100 * n"
    using assms by linarith
  have "100 * sols_before_year (y + 1) \<le> 66859 * (y + 1) + 10000"
    using assms by (intro sols_before_year_bounds) simp_all
  then have hi: "100 * n \<le> 66859 * y + 76859"
    using assms by (simp add: algebra_simps)
  have a: "5880979833718047 * year_estimate n \<le> n * 8796093022208"
    using div_bounds(1)[of 5880979833718047 "n * 2 ^ 43"] by (simp add: year_estimate_def)
  have b: "n * 8796093022208 < 5880979833718047 * year_estimate n + 5880979833718047"
    using div_bounds(2)[of 5880979833718047 "n * 2 ^ 43"] by (simp add: year_estimate_def)
  show "y - 1 \<le> year_estimate n" and "year_estimate n \<le> y + 1"
    using estimate_arith[OF a b lo hi assms(1,2)] by blast+
qed

lemma sols_before_year_less: "sols_before_year y < sols_before_year (y + 1)"
  using sols_before_year_step[of y] by (simp split: if_splits)

lemma year_correct:
  assumes "0 \<le> y" "y \<le> 9999" "sols_before_year y < n" "n \<le> sols_before_year (y + 1)"
  shows "(if n \<le> sols_before_year (year_estimate n) then year_estimate n - 1
          else if n > sols_before_year (year_estimate n + 1) then year_estimate n + 1
          else year_estimate n) = y"
proof -
  define e where "e = year_estimate n"
  have "y - 1 \<le> e" "e \<le> y + 1"
    using year_estimate_near[OF assms] by (simp_all add: e_def)
  then consider "e = y - 1" | "e = y" | "e = y + 1" by linarith
  then have "(if n \<le> sols_before_year e then e - 1
          else if n > sols_before_year (e + 1) then e + 1 else e) = y"
  proof cases
    case 1
    have "sols_before_year (y - 1) < sols_before_year y"
      using sols_before_year_less[of "y - 1"] by simp
    with 1 assms show ?thesis by simp
  next
    case 2
    with assms show ?thesis by simp
  next
    case 3
    with assms show ?thesis by simp
  qed
  then show ?thesis by (simp only: e_def)
qed

lemma month_search:
  fixes m d q n1 :: int
  assumes m: "1 \<le> m" "m \<le> 24" and d: "1 \<le> d" "d \<le> 28"
    and short: "m = 6 \<or> m = 12 \<or> m = 18 \<Longrightarrow> d \<le> 27"
    and n1: "n1 = (m - 1) * 28 - (m - 1) div 6 + d"
    and q: "28 * q \<le> n1" "n1 < 28 * q + 28"
  shows "rbind (sols_before_month (q + 1)) (\<lambda>sbm0.
        rbind (if n1 \<le> sbm0 then Inr (q + 1 - 1)
               else if q + 1 < 24 then
                 rbind (sols_before_month (q + 1 + 1)) (\<lambda>sbm1.
                   Inr (if n1 > sbm1 then q + 1 + 1 else q + 1))
               else Inr (q + 1)) (\<lambda>month.
        rbind (sols_before_month month) (\<lambda>sbm.
          Inr (yr, month, n1 - sbm)))) = Inr (yr, m, d)"
proof -
  have q3: "q = m - 2 \<or> q = m - 1 \<or> q = m"
  proof -
    have "6 * ((m - 1) div 6) \<le> m - 1" by (rule div_bounds(1)) simp
    moreover have "m - 1 < 6 * ((m - 1) div 6) + 6" by (rule div_bounds(2)) simp
    ultimately have "28 * m - 55 < n1" "n1 \<le> 28 * m"
      using m d unfolding n1 by (simp_all add: algebra_simps)
    with q have "m - 2 \<le> q" "q \<le> m" by linarith+
    then show ?thesis by linarith
  qed
  have "m = 1 \<or> m = 2 \<or> m = 3 \<or> m = 4 \<or> m = 5 \<or> m = 6 \<or> m = 7 \<or> m = 8
      \<or> m = 9 \<or> m = 10 \<or> m = 11 \<or> m = 12 \<or> m = 13 \<or> m = 14 \<or> m = 15 \<or> m = 16
      \<or> m = 17 \<or> m = 18 \<or> m = 19 \<or> m = 20 \<or> m = 21 \<or> m = 22 \<or> m = 23 \<or> m = 24"
    using m by presburger
  then show ?thesis
    using q3 d short q unfolding n1
    by (elim disjE) (simp_all add: sols_before_month_def)
qed

subsection \<open>Round trips between ordinals and dates\<close>

lemma valid_ymdD:
  assumes "valid_ymd y m d"
  shows "0 \<le> y" "y \<le> 9999" "1 \<le> m" "m \<le> 24" "1 \<le> d" "d \<le> 28"
    and "m = 6 \<or> m = 12 \<or> m = 18 \<Longrightarrow> d \<le> 27"
    and "m = 24 \<Longrightarrow> \<not> is_leap y \<Longrightarrow> d \<le> 27"
    and "\<exists>dim. sols_in_month y m = Inr dim \<and> d \<le> dim"
  using assms by (auto simp: valid_ymd_def sols_in_month_def split: if_splits)

lemma ymd2ord_valid:
  assumes "valid_ymd y m d"
  shows "ymd2ord y m d = Inr (sols_before_year y + ((m - 1) * 28 - (m - 1) div 6) + d)"
  using valid_ymdD[OF assms] by (auto simp: ymd2ord_def sols_before_month_def)

lemma day_of_year_bounds:
  assumes "valid_ymd y m d"
  shows "1 \<le> (m - 1) * 28 - (m - 1) div 6 + d"
    and "(m - 1) * 28 - (m - 1) div 6 + d \<le> (if is_leap y then 669 else 668)"
proof -
  note v = valid_ymdD[OF assms]
  have a: "6 * ((m - 1) div 6) \<le> m - 1" by (rule div_bounds(1)) simp
  have b: "m - 1 < 6 * ((m - 1) div 6) + 6" by (rule div_bounds(2)) simp
  define t where "t = (m - 1) div 6"
  show "1 \<le> (m - 1) * 28 - (m - 1) div 6 + d"
    using a v(3,5) unfolding t_def[symmetric] by (simp add: algebra_simps)
  show "(m - 1) * 28 - (m - 1) div 6 + d \<le> (if is_leap y then 669 else 668)"
  proof (cases "m = 24")
    case True
    then show ?thesis using v(6,8) by auto
  next
    case False
    with v(4) have "m \<le> 23" by simp
    then show ?thesis
      using b v(6) unfolding t_def[symmetric] by (simp add: algebra_simps)
  qed
qed

lemma ord2ymd_ymd2ord:
  assumes "valid_ymd y m d"
  shows "ord2ymd (sols_before_year y + ((m - 1) * 28 - (m - 1) div 6) + d) = Inr (y, m, d)"
proof -
  note v = valid_ymdD[OF assms]
  define n1 where "n1 = (m - 1) * 28 - (m - 1) div 6 + d"
  define n where "n = sols_before_year y + n1"
  have n1: "1 \<le> n1" "n1 \<le> (if is_leap y then 669 else 668)"
    using day_of_year_bounds[OF assms] by (simp_all add: n1_def)
  have "sols_before_year y < n" using n1(1) by (simp add: n_def)
  moreover have "n \<le> sols_before_year (y + 1)"
    using n1(2) sols_before_year_step[of y] by (simp add: n_def)
  ultimately have yr: "(if n \<le> sols_before_year (year_estimate n) then year_estimate n - 1
          else if n > sols_before_year (year_estimate n + 1) then year_estimate n + 1
          else year_estimate n) = y"
    using v(1,2) by (intro year_correct)
  have rest: "n - sols_before_year y = n1" by (simp add: n_def)
  have q: "28 * (n1 div 28) \<le> n1" "n1 < 28 * (n1 div 28) + 28"
    by (rule div_bounds; simp)+
  have "ord2ymd n = Inr (y, m, d)"
    unfolding ord2ymd_def Let_def yr rest
    by (rule month_search[OF v(3,4,5,6,7) n1_def q])
  then show ?thesis by (simp add: n_def n1_def add.assoc)
qed

lemma year_exists:
  assumes "0 < n" "n \<le> sols_before_year (int k)"
  shows "\<exists>y. 0 \<le> y \<and> y < int k \<and> sols_before_year y < n \<and> n \<le> sols_before_year (y + 1)"
  using assms
proof (induction k)
  case 0
  then show ?case by (simp add: sols_before_year_def Let_def)
next
  case (Suc k)
  show ?case
  proof (cases "n \<le> sols_before_year (int k)")
    case True
    with Suc obtain y where "0 \<le> y" "y < int k" "sols_before_year y < n"
      "n \<le> sols_before_year (y + 1)" by blast
    then show ?thesis by (intro exI[of _ y]) simp
  next
    case False
    with Suc.prems show ?thesis
      by (intro exI[of _ "int k"]) (simp add: add.commute)
  qed
qed

lemma month_index_exists:
  assumes "0 < n1" "n1 \<le> int k * 28 - int k div 6"
  shows "\<exists>m. 1 \<le> m \<and> m \<le> int k
    \<and> (m - 1) * 28 - (m - 1) div 6 < n1 \<and> n1 \<le> m * 28 - m div 6"
  using assms
proof (induction k)
  case 0
  then show ?case by simp
next
  case (Suc k)
  show ?case
  proof (cases "n1 \<le> int k * 28 - int k div 6")
    case True
    with Suc obtain m where "1 \<le> m" "m \<le> int k"
      "(m - 1) * 28 - (m - 1) div 6 < n1" "n1 \<le> m * 28 - m div 6" by blast
    then show ?thesis by (intro exI[of _ m]) simp
  next
    case False
    with Suc.prems show ?thesis
      by (intro exI[of _ "int k + 1"]) (simp add: add.commute)
  qed
qed

lemma month_exists:
  assumes "1 \<le> n1" "n1 \<le> (if is_leap y then 669 else 668)" "0 \<le> y" "y \<le> 9999"
  shows "\<exists>m d. valid_ymd y m d \<and> (m - 1) * 28 - (m - 1) div 6 + d = n1"
proof (cases "n1 = 669")
  case True
  with assms have "is_leap y" by (simp split: if_splits)
  with assms True show ?thesis
    by (intro exI[of _ 24] exI[of _ 28]) (simp add: valid_ymd_def sols_in_month_def)
next
  case False
  with assms have "n1 \<le> int 24 * 28 - int 24 div 6" by (simp split: if_splits)
  with assms(1) obtain m where m: "1 \<le> m" "m \<le> 24"
    "(m - 1) * 28 - (m - 1) div 6 < n1" "n1 \<le> m * 28 - m div 6"
    using month_index_exists[of n1 24] by auto
  define a where "a = (m - 1) div 6"
  define d where "d = n1 - ((m - 1) * 28 - a)"
  have st: "m div 6 = a + (if m mod 6 = 0 then 1 else 0)"
    unfolding a_def by (rule div_step) simp
  have d1: "1 \<le> d" using m(3) by (simp add: d_def a_def)
  have d28: "d \<le> 28"
    using m(4) unfolding st d_def by (simp add: algebra_simps split: if_splits)
  have d27: "d \<le> 27" if "m mod 6 = 0"
    using m(4) that unfolding st d_def by (simp add: algebra_simps)
  have "d \<le> 27" if "m = 6 \<or> m = 12 \<or> m = 18 \<or> m = 24"
    using that by (intro d27) auto
  with d1 d28 m(1,2) assms(3,4) have "valid_ymd y m d"
    by (simp add: valid_ymd_def sols_in_month_def)
  moreover have "(m - 1) * 28 - (m - 1) div 6 + d = n1"
    by (simp add: d_def a_def)
  ultimately show ?thesis by blast
qed

lemma ymd_exists:
  assumes "1 \<le> n" "n \<le> 6685945"
  shows "\<exists>y m d. valid_ymd y m d \<and> ymd2ord y m d = Inr n"
proof -
  have "sols_before_year (int 10000) = 6685945"
    by (simp add: sols_before_year_def Let_def)
  with assms obtain y where y: "0 \<le> y" "y < int 10000" "sols_before_year y < n"
    "n \<le> sols_before_year (y + 1)"
    using year_exists[of n 10000] by auto
  have "n - sols_before_year y \<le> (if is_leap y then 669 else 668)"
    using y(4) sols_before_year_step[of y] by (simp split: if_splits)
  with y obtain m d where md: "valid_ymd y m d"
    "(m - 1) * 28 - (m - 1) div 6 + d = n - sols_before_year y"
    using month_exists[of "n - sols_before_year y" y] by auto
  have "ymd2ord y m d = Inr n"
    using md(2) by (simp add: ymd2ord_valid[OF md(1)])
  with md(1) show ?thesis by blast
qed

text \<open>
  C1. The ordinal/date conversion is a bijection on the supported range: for every
  ordinal \<open>n\<close> from 1 to 6685945, \<open>_ymd2ord\<close> applied to the triple that
  \<open>_ord2ymd(n)\<close> returns gives \<open>n\<close> back; and for every valid (year, month, sol),
  with the year from 0 to 9999, the month from 1 to 24 and the sol from 1 to the
  length of the month, \<open>_ord2ymd\<close> of \<open>_ymd2ord(year, month, sol)\<close> returns exactly
  that triple. Neither call trips an assertion.
\<close>

theorem ordinal_date_bijection:
  "(1 \<le> n \<and> n \<le> 6685945
      \<longrightarrow> rbind (ord2ymd n) (\<lambda>(y, m, d). ymd2ord y m d) = Inr n)
   \<and> (valid_ymd yr mo sl
      \<longrightarrow> rbind (ymd2ord yr mo sl) ord2ymd = Inr (yr, mo, sl))"
proof (intro conjI impI)
  assume "1 \<le> n \<and> n \<le> 6685945"
  then obtain y m d where v: "valid_ymd y m d" and o: "ymd2ord y m d = Inr n"
    using ymd_exists[of n] by blast
  from o have "n = sols_before_year y + ((m - 1) * 28 - (m - 1) div 6) + d"
    by (simp add: ymd2ord_valid[OF v])
  then have "ord2ymd n = Inr (y, m, d)"
    by (simp only: ord2ymd_ymd2ord[OF v])
  with o show "rbind (ord2ymd n) (\<lambda>(y, m, d). ymd2ord y m d) = Inr n"
    by simp
next
  assume v: "valid_ymd yr mo sl"
  show "rbind (ymd2ord yr mo sl) ord2ymd = Inr (yr, mo, sl)"
    by (simp only: ymd2ord_valid[OF v] rbind.simps ord2ymd_ymd2ord[OF v])
qed

theorem ordinal_date_bijection_witness:
  "1 \<le> (146782::int) \<and> (146782::int) \<le> 6685945
   \<and> rbind (ord2ymd 146782) (\<lambda>(y, m, d). ymd2ord y m d) = Inr 146782
   \<and> valid_ymd 219 13 27
   \<and> ymd2ord 219 13 27 = Inr 146782
   \<and> rbind (ymd2ord 219 13 27) ord2ymd = Inr (219, 13, 27)"
  using ordinal_date_bijection [of 146782 219 13 27]
  by (simp add: valid_ymd_def sols_in_month_def is_leap_def ymd2ord_def
      sols_before_month_def sols_before_year_def)

subsection \<open>The leap rule and the closed form\<close>

text \<open>
  C3. For every year, \<open>_is_leap\<close> is the five-band rule of the specification:
  the band's always-leap modulus first, then its exception modulus, then
  divisibility by 10, then oddness. Years 2000, 2010 and 2001 are leap, 2100 is not.
\<close>

theorem is_leap_five_band_rule:
  "is_leap y = is_leap_spec y
   \<and> is_leap 2000 \<and> \<not> is_leap 2100 \<and> is_leap 2010 \<and> is_leap 2001"
  by (simp add: is_leap_def is_leap_spec_def leap_band_def)

text \<open>
  C2. For every year \<open>y\<close> from 0 to 9998, the closed form grows from \<open>y\<close> to
  \<open>y + 1\<close> by the sum of the 24 month lengths of \<open>y\<close>, which is 669 in a leap year
  and 668 otherwise; and no sol lies before year 0.
\<close>

theorem sols_before_year_consistent:
  assumes "0 \<le> y" and "y \<le> 9998"
  shows "sum_sols_in_months y all_months
           = Inr (sols_before_year (y + 1) - sols_before_year y)
         \<and> sols_before_year (y + 1) - sols_before_year y
           = (if is_leap y then 669 else 668)
         \<and> sols_before_year 0 = 0"
proof -
  have "sols_before_year 0 = 0"
    by (simp add: sols_before_year_def Let_def)
  then show ?thesis
    by (simp only: sum_sols_in_months_all sols_before_year_step simp_thms)
qed

theorem sols_before_year_consistent_witness:
  "(0::int) \<le> 2000 \<and> (2000::int) \<le> 9998
   \<and> sum_sols_in_months 2000 all_months
       = Inr (sols_before_year (2000 + 1) - sols_before_year 2000)
   \<and> sols_before_year (2000 + 1) - sols_before_year 2000 = 669
   \<and> is_leap 2000
   \<and> sols_before_year 0 = 0"
  using sols_before_year_consistent [of 2000]
  by (simp add: is_leap_def)

section \<open>Properties of Mtimedelta\<close>

lemma carry_total:
  "Mtimedelta_carry d s u = of_total ((d * 86400 + s) * 1000000 + u)"
proof -
  define T where "T = (d * 86400 + s) * 1000000 + u"
  have q: "T div 1000000 = d * 86400 + s + u div 1000000"
    by (simp add: T_def)
  have r: "T mod 1000000 = u mod 1000000"
    unfolding T_def by (rule mod_mult_self3)
  have "T div 86400000000 = (T div 1000000) div 86400"
    using zdiv_zmult2_eq[of 86400 T 1000000] by simp
  then have qq: "T div 86400000000 = d + (s + u div 1000000) div 86400"
    by (simp add: q add.assoc)
  have rr: "(T div 1000000) mod 86400 = (s + u div 1000000) mod 86400"
    by (simp add: q add.assoc)
  show ?thesis
    unfolding T_def[symmetric] of_total_def qq rr r
    by (simp add: Mtimedelta_carry_def Let_def)
qed

lemma new_carry:
  "Mtimedelta_new a b c ms mi h w =
    Mtimedelta_carry
      (a + w * 7 + (b + (mi * 60 + h * 3600)) div 86400 + ((c + ms * 1000) div 1000000) div 86400)
      ((b + (mi * 60 + h * 3600)) mod 86400 + ((c + ms * 1000) div 1000000) mod 86400)
      ((c + ms * 1000) mod 1000000)"
proof -
  define S where "S = b + (mi * 60 + h * 3600)"
  define V where "V = (c + ms * 1000) div 1000000"
  define U where "U = (c + ms * 1000) mod 1000000"
  define sm where "sm = S mod 86400"
  define vm where "vm = V mod 86400"
  have b: "0 \<le> sm" "sm < 86400" "0 \<le> vm" "vm < 86400" "0 \<le> U" "U < 1000000"
    by (simp_all add: sm_def vm_def U_def)
  then have c: "sm \<le> 172800" "sm + vm \<le> 259200" "\<bar>U\<bar> < 3100000"
    by linarith+
  show ?thesis
    using c[unfolded sm_def vm_def U_def V_def S_def]
    by (simp add: Mtimedelta_new_def Let_def)
qed

lemma new_total:
  "Mtimedelta_new a b c ms mi h w = of_total (total_microseconds a b c ms mi h w)"
proof -
  define S where "S = b + (mi * 60 + h * 3600)"
  define R where "R = c + ms * 1000"
  define V where "V = R div 1000000"
  define sq where "sq = S div 86400"
  define sr where "sr = S mod 86400"
  define vq where "vq = V div 86400"
  define vr where "vr = V mod 86400"
  define ur where "ur = R mod 1000000"
  have e1: "S = sq * 86400 + sr" by (simp add: sq_def sr_def)
  have e2: "V = vq * 86400 + vr" by (simp add: vq_def vr_def)
  have e3: "R = V * 1000000 + ur" by (simp add: V_def ur_def)
  have "((a + w * 7 + sq + vq) * 86400 + (sr + vr)) * 1000000 + ur
      = ((w * 7 + a) * 86400 + S) * 1000000 + R"
    unfolding e3 e2 e1 by (simp add: algebra_simps)
  also have "\<dots> = total_microseconds a b c ms mi h w"
    by (simp add: total_microseconds_def S_def R_def algebra_simps)
  finally have t: "((a + w * 7 + sq + vq) * 86400 + (sr + vr)) * 1000000 + ur
      = total_microseconds a b c ms mi h w" .
  have "Mtimedelta_new a b c ms mi h w = Mtimedelta_carry (a + w * 7 + sq + vq) (sr + vr) ur"
    unfolding sq_def vq_def sr_def vr_def ur_def V_def S_def R_def by (rule new_carry)
  then show ?thesis by (simp only: carry_total t)
qed

lemma of_total_cases:
  "of_total T = Inr t \<Longrightarrow> normalized t \<and> to_microseconds t = T"
  "of_total T = Inl e \<Longrightarrow> e = OverflowError \<and> \<bar>T div 86400000000\<bar> > 999999999"
proof -
  define q where "q = T div 1000000 div 86400"
  define r where "r = T div 1000000 mod 86400"
  define u where "u = T mod 1000000"
  have d: "T div 86400000000 = q"
    using zdiv_zmult2_eq[of 86400 T 1000000] by (simp add: q_def)
  have e: "(q * 86400 + r) * 1000000 + u = T"
    by (simp only: q_def r_def u_def div_mult_mod_eq)
  have b: "0 \<le> r" "r \<le> 86399" "0 \<le> u" "u \<le> 999999"
    by (simp_all add: r_def u_def zle_diff1_eq[symmetric])
  have o: "of_total T = (if \<bar>q\<bar> > 999999999 then Inl OverflowError
     else Inr \<lparr>sols = q, seconds = r, microseconds = u\<rparr>)"
    by (simp only: of_total_def d r_def u_def)
  show "of_total T = Inr t \<Longrightarrow> normalized t \<and> to_microseconds t = T"
    unfolding o using e b
    by (auto simp: normalized_def to_microseconds_def split: if_splits)
  show "of_total T = Inl e \<Longrightarrow> e = OverflowError \<and> \<bar>T div 86400000000\<bar> > 999999999"
    by (simp add: of_total_def split: if_splits)
qed

lemma of_total_to_microseconds:
  assumes "normalized a"
  shows "of_total (to_microseconds a) = Inr a"
proof -
  have "of_total (to_microseconds a) = Mtimedelta_carry (sols a) (seconds a) (microseconds a)"
    by (simp add: carry_total to_microseconds_def)
  also have "\<dots> = Inr a"
    using assms by (simp add: Mtimedelta_carry_def normalized_def Let_def)
  finally show ?thesis .
qed

lemma cmp3_eq: "cmp [a, b, c] [a', b', c'] = 0 \<longleftrightarrow> a = a' \<and> b = b' \<and> c = c'"
  by simp

lemma Mtimedelta_eq_iff: "Mtimedelta_eq x y \<longleftrightarrow> x = y"
  by (cases x; cases y) (simp add: Mtimedelta_eq_def Mtimedelta_cmp_def Mtimedelta_getstate_def)

lemma add_total: "Mtimedelta_add a b = of_total (to_microseconds a + to_microseconds b)"
proof -
  have "total_microseconds (sols a + sols b) (seconds a + seconds b)
      (microseconds a + microseconds b) 0 0 0 0 = to_microseconds a + to_microseconds b"
    by (simp add: total_microseconds_def to_microseconds_def algebra_simps)
  then show ?thesis by (simp only: Mtimedelta_add_def new_total)
qed

lemma sub_total: "Mtimedelta_sub a b = of_total (to_microseconds a - to_microseconds b)"
proof -
  have "total_microseconds (sols a - sols b) (seconds a - seconds b)
      (microseconds a - microseconds b) 0 0 0 0 = to_microseconds a - to_microseconds b"
    by (simp add: total_microseconds_def to_microseconds_def algebra_simps)
  then show ?thesis by (simp only: Mtimedelta_sub_def new_total)
qed

text \<open>
  C4. Normalization does not depend on the decomposition, for integer arguments:
  two argument tuples (sols, seconds, microseconds, milliseconds, minutes, hours,
  weeks) with the same net total in microseconds construct the same value (the
  same triple, or the same overflow). In particular \<open>Mtimedelta(sols=1)\<close>,
  \<open>Mtimedelta(seconds=86400)\<close> and \<open>Mtimedelta(hours=24)\<close> are the triple
  (1, 0, 0), and equal under \<open>==\<close>.
\<close>

theorem normalization_decomposition_independent:
  "(total_microseconds a b c ms mi h w = total_microseconds a' b' c' ms' mi' h' w'
      \<longrightarrow> Mtimedelta_new a b c ms mi h w = Mtimedelta_new a' b' c' ms' mi' h' w')
   \<and> Mtimedelta_new 1 0 0 0 0 0 0 = Inr \<lparr>sols = 1, seconds = 0, microseconds = 0\<rparr>
   \<and> Mtimedelta_new 0 86400 0 0 0 0 0 = Inr \<lparr>sols = 1, seconds = 0, microseconds = 0\<rparr>
   \<and> Mtimedelta_new 0 0 0 0 0 24 0 = Inr \<lparr>sols = 1, seconds = 0, microseconds = 0\<rparr>
   \<and> Mtimedelta_eq \<lparr>sols = 1, seconds = 0, microseconds = 0\<rparr>
        \<lparr>sols = 1, seconds = 0, microseconds = 0\<rparr>"
proof (intro conjI impI)
  assume "total_microseconds a b c ms mi h w = total_microseconds a' b' c' ms' mi' h' w'"
  then show "Mtimedelta_new a b c ms mi h w = Mtimedelta_new a' b' c' ms' mi' h' w'"
    by (simp only: new_total)
qed (simp_all add: Mtimedelta_new_def Mtimedelta_carry_def Mtimedelta_eq_iff)

theorem normalization_decomposition_independent_witness:
  "total_microseconds 1 2 3 4 5 6 0 = total_microseconds 0 108302 4003 0 0 0 0
   \<and> Mtimedelta_new 1 2 3 4 5 6 0 = Mtimedelta_new 0 108302 4003 0 0 0 0
   \<and> Mtimedelta_new 1 2 3 4 5 6 0 = Inr \<lparr>sols = 1, seconds = 21902, microseconds = 4003\<rparr>"
  using normalization_decomposition_independent [of 1 2 3 4 5 6 0 0 108302 4003 0 0 0 0]
  by (simp add: total_microseconds_def Mtimedelta_new_def Mtimedelta_carry_def)


text \<open>
  C6. For normalized durations \<open>a\<close> and \<open>b\<close> whose sum stays within
  999999999 sols in absolute value, \<open>a + b\<close> is constructed, and
  \<open>(a + b) - b == a\<close> and \<open>a + b == b + a\<close>.
\<close>

theorem add_commutes_sub_inverts:
  assumes "normalized a" and "normalized b"
    and "\<bar>(to_microseconds a + to_microseconds b) div 86400000000\<bar> \<le> 999999999"
  shows "\<exists>c. Mtimedelta_add a b = Inr c
    \<and> rbind (Mtimedelta_sub c b) (\<lambda>r. Inr (Mtimedelta_eq r a)) = Inr True
    \<and> rbind (Mtimedelta_add b a) (\<lambda>r. Inr (Mtimedelta_eq c r)) = Inr True"
proof -
  from assms(3) obtain c where
    c: "of_total (to_microseconds a + to_microseconds b) = Inr c"
    by (simp add: of_total_def)
  then have a: "Mtimedelta_add a b = Inr c"
    by (simp only: add_total)
  from c have "to_microseconds c = to_microseconds a + to_microseconds b"
    using of_total_cases(1) by blast
  then have "Mtimedelta_sub c b = of_total (to_microseconds a)"
    by (simp add: sub_total)
  then have s: "Mtimedelta_sub c b = Inr a"
    by (simp only: of_total_to_microseconds[OF assms(1)])
  have "Mtimedelta_add b a = of_total (to_microseconds a + to_microseconds b)"
    by (simp only: add_total add.commute)
  with c have "Mtimedelta_add b a = Inr c" by simp
  with a s show ?thesis by (simp add: Mtimedelta_eq_iff)
qed

theorem add_commutes_sub_inverts_witness:
  "normalized \<lparr>sols = 1, seconds = 2, microseconds = 3\<rparr>
   \<and> normalized \<lparr>sols = - 5, seconds = 86399, microseconds = 999999\<rparr>
   \<and> \<bar>(to_microseconds \<lparr>sols = 1, seconds = 2, microseconds = 3\<rparr>
        + to_microseconds \<lparr>sols = - 5, seconds = 86399, microseconds = 999999\<rparr>)
        div 86400000000\<bar> \<le> 999999999
   \<and> Mtimedelta_add \<lparr>sols = 1, seconds = 2, microseconds = 3\<rparr>
        \<lparr>sols = - 5, seconds = 86399, microseconds = 999999\<rparr>
      = Inr \<lparr>sols = - 3, seconds = 2, microseconds = 2\<rparr>
   \<and> rbind (Mtimedelta_sub \<lparr>sols = - 3, seconds = 2, microseconds = 2\<rparr>
        \<lparr>sols = - 5, seconds = 86399, microseconds = 999999\<rparr>)
        (\<lambda>r. Inr (Mtimedelta_eq r \<lparr>sols = 1, seconds = 2, microseconds = 3\<rparr>)) = Inr True
   \<and> rbind (Mtimedelta_add \<lparr>sols = - 5, seconds = 86399, microseconds = 999999\<rparr>
        \<lparr>sols = 1, seconds = 2, microseconds = 3\<rparr>)
        (\<lambda>r. Inr (Mtimedelta_eq \<lparr>sols = - 3, seconds = 2, microseconds = 2\<rparr> r)) = Inr True"
proof -
  have n: "normalized \<lparr>sols = 1, seconds = 2, microseconds = 3\<rparr>"
    "normalized \<lparr>sols = - 5, seconds = 86399, microseconds = 999999\<rparr>"
    by (simp_all add: normalized_def)
  have h: "\<bar>(to_microseconds \<lparr>sols = 1, seconds = 2, microseconds = 3\<rparr>
        + to_microseconds \<lparr>sols = - 5, seconds = 86399, microseconds = 999999\<rparr>)
        div 86400000000\<bar> \<le> 999999999"
    by (simp add: to_microseconds_def)
  have a: "Mtimedelta_add \<lparr>sols = 1, seconds = 2, microseconds = 3\<rparr>
        \<lparr>sols = - 5, seconds = 86399, microseconds = 999999\<rparr>
      = Inr \<lparr>sols = - 3, seconds = 2, microseconds = 2\<rparr>"
    by (simp add: Mtimedelta_add_def Mtimedelta_new_def Mtimedelta_carry_def)
  show ?thesis
    using n h a add_commutes_sub_inverts [OF n h] by simp
qed

section \<open>Properties of Mdate\<close>

lemma check_date_fields_valid:
  assumes "valid_ymd y m d"
  shows "check_date_fields y m d = Inr (y, m, d)"
  using assms
  by (auto simp: valid_ymd_def check_date_fields_def MMINYEAR_def MMAXYEAR_def
      split: sum.splits)

lemma ord2ymd_in_range:
  assumes "1 \<le> n" "n \<le> 6685945"
  shows "\<exists>y m d. valid_ymd y m d \<and> ord2ymd n = Inr (y, m, d) \<and> ymd2ord y m d = Inr n"
proof -
  obtain y m d where v: "valid_ymd y m d" and o: "ymd2ord y m d = Inr n"
    using ymd_exists[OF assms] by blast
  from o have "n = sols_before_year y + ((m - 1) * 28 - (m - 1) div 6) + d"
    by (simp add: ymd2ord_valid[OF v])
  then have "ord2ymd n = Inr (y, m, d)"
    by (simp only: ord2ymd_ymd2ord[OF v])
  with v o show ?thesis by blast
qed

lemma Mdate_fromordinal_in_range:
  assumes "1 \<le> n" "n \<le> 6685945"
  shows "\<exists>r. Mdate_fromordinal n = Inr r \<and> valid_Mdate r \<and> Mdate_toordinal r = Inr n"
proof -
  obtain y m d where v: "valid_ymd y m d" and o: "ord2ymd n = Inr (y, m, d)"
    and t: "ymd2ord y m d = Inr n"
    using ord2ymd_in_range[OF assms] by blast
  have "Mdate_fromordinal n = Inr \<lparr>year = y, month = m, sol = d\<rparr>"
    by (simp add: Mdate_fromordinal_def o Mdate_new_def check_date_fields_valid[OF v])
  with v t show ?thesis
    by (simp add: valid_Mdate_def Mdate_toordinal_def)
qed

text \<open>
  C7. For a valid date \<open>d\<close> and a duration \<open>t\<close>: when \<open>d.toordinal() + t.sols\<close>
  lies in 1..6685945, \<open>d + t\<close> is a valid date whose ordinal is that sum (by C1
  there is one such date); otherwise \<open>d + t\<close> raises the overflow error. The
  seconds and microseconds of \<open>t\<close> do not affect the result.
\<close>

theorem Mdate_add_ordinal:
  assumes "valid_Mdate d"
  shows "\<exists>n. Mdate_toordinal d = Inr n
    \<and> (if 1 \<le> n + sols t \<and> n + sols t \<le> 6685945
        then \<exists>r. Mdate_add d t = Inr r \<and> valid_Mdate r
               \<and> Mdate_toordinal r = Inr (n + sols t)
        else Mdate_add d t = Inl OverflowError)
    \<and> Mdate_add d (t\<lparr>seconds := s, microseconds := u\<rparr>) = Mdate_add d t"
proof -
  from assms obtain n where n: "Mdate_toordinal d = Inr n"
    by (simp add: valid_Mdate_def Mdate_toordinal_def ymd2ord_valid)
  have "\<exists>r. Mdate_add d t = Inr r \<and> valid_Mdate r \<and> Mdate_toordinal r = Inr (n + sols t)"
    if "1 \<le> n + sols t" "n + sols t \<le> 6685945"
    using Mdate_fromordinal_in_range[OF that] that
    by (simp add: Mdate_add_def n MAXORDINAL_def Let_def)
  moreover have "Mdate_add d t = Inl OverflowError"
    if "\<not> (1 \<le> n + sols t \<and> n + sols t \<le> 6685945)"
    using that by (auto simp: Mdate_add_def n MAXORDINAL_def Let_def)
  moreover have "Mdate_add d (t\<lparr>seconds := s, microseconds := u\<rparr>) = Mdate_add d t"
    by (simp add: Mdate_add_def)
  ultimately show ?thesis using n by auto
qed

theorem Mdate_add_ordinal_witness:
  "valid_Mdate \<lparr>year = 219, month = 13, sol = 27\<rparr>
   \<and> Mdate_toordinal \<lparr>year = 219, month = 13, sol = 27\<rparr> = Inr 146782
   \<and> Mdate_add \<lparr>year = 219, month = 13, sol = 27\<rparr>
        \<lparr>sols = 2, seconds = 5, microseconds = 7\<rparr> = Inr \<lparr>year = 219, month = 14, sol = 1\<rparr>
   \<and> Mdate_toordinal \<lparr>year = 219, month = 14, sol = 1\<rparr> = Inr 146784
   \<and> Mdate_add \<lparr>year = 219, month = 13, sol = 27\<rparr>
        \<lparr>sols = - 146782, seconds = 0, microseconds = 0\<rparr> = Inl OverflowError"
proof -
  have v: "valid_Mdate \<lparr>year = 219, month = 13, sol = 27\<rparr>"
    by (simp add: valid_Mdate_def valid_ymd_def sols_in_month_def)
  have n: "Mdate_toordinal \<lparr>year = 219, month = 13, sol = 27\<rparr> = Inr 146782"
    by (simp add: Mdate_toordinal_def ymd2ord_def sols_in_month_def sols_before_month_def
        sols_before_year_def)
  have m: "Mdate_toordinal \<lparr>year = 219, month = 14, sol = 1\<rparr> = Inr 146784"
    by (simp add: Mdate_toordinal_def ymd2ord_def sols_in_month_def sols_before_month_def
        sols_before_year_def)
  have a: "Mdate_add \<lparr>year = 219, month = 13, sol = 27\<rparr>
        \<lparr>sols = 2, seconds = 5, microseconds = 7\<rparr> = Inr \<lparr>year = 219, month = 14, sol = 1\<rparr>"
  proof -
    have "ord2ymd 146784 = Inr (219, 14, 1)"
      by code_simp
    then have "Mdate_fromordinal 146784 = Inr \<lparr>year = 219, month = 14, sol = 1\<rparr>"
      by (simp add: Mdate_fromordinal_def Mdate_new_def check_date_fields_def
          MMINYEAR_def MMAXYEAR_def sols_in_month_def)
    then show ?thesis
      by (simp add: Mdate_add_def n MAXORDINAL_def)
  qed
  show ?thesis
    using v n m a
      Mdate_add_ordinal [OF v, of "\<lparr>sols = - 146782, seconds = 0, microseconds = 0\<rparr>" 0 0]
    by simp
qed

section \<open>Properties of Mtime and Mdatetime\<close>

text \<open>
  C9. Hashing an aware \<open>Mtime\<close> should never fail. It does: \<open>Mtimezone\<close> accepts
  the offset of 30 seconds, and the hash of midnight in that zone stops at the
  assertion "whole minute".
\<close>

theorem Mtime_hash_sub_minute_offset:
  "Mtimedelta_new 0 30 0 0 0 0 0 = Inr \<lparr>sols = 0, seconds = 30, microseconds = 0\<rparr>
   \<and> Mtimezone_new 1 \<lparr>sols = 0, seconds = 30, microseconds = 0\<rparr> None
       = Inr (Mtimezone_create 1 \<lparr>sols = 0, seconds = 30, microseconds = 0\<rparr>)
   \<and> Mtime_new 0 0 0 0
        (Some (Mtimezone_create 1 \<lparr>sols = 0, seconds = 30, microseconds = 0\<rparr>)) 0
       = Inr \<lparr>t_hour = 0, t_minute = 0, t_second = 0, t_microsecond = 0,
          t_tzinfo = Some (Mtimezone_create 1 \<lparr>sols = 0, seconds = 30, microseconds = 0\<rparr>),
          t_fold = 0\<rparr>
   \<and> Mtime_hash \<lparr>t_hour = 0, t_minute = 0, t_second = 0, t_microsecond = 0,
          t_tzinfo = Some (Mtimezone_create 1 \<lparr>sols = 0, seconds = 30, microseconds = 0\<rparr>),
          t_fold = 0\<rparr>
       = Inl AssertionError"
proof (intro conjI)
  show "Mtimedelta_new 0 30 0 0 0 0 0 = Inr \<lparr>sols = 0, seconds = 30, microseconds = 0\<rparr>"
    by (simp add: Mtimedelta_new_def Mtimedelta_carry_def)
  show "Mtimezone_new 1 \<lparr>sols = 0, seconds = 30, microseconds = 0\<rparr> None
       = Inr (Mtimezone_create 1 \<lparr>sols = 0, seconds = 30, microseconds = 0\<rparr>)"
    by (simp add: Mtimezone_new_def Mtimedelta_bool_def Mtimezone_minoffset_def
        Mtimezone_maxoffset_def Mtimedelta_neg_def Mtimedelta_new_def Mtimedelta_carry_def
        Mtimedelta_le_def Mtimedelta_cmp_def Mtimedelta_getstate_def)
  show "Mtime_new 0 0 0 0
        (Some (Mtimezone_create 1 \<lparr>sols = 0, seconds = 30, microseconds = 0\<rparr>)) 0
       = Inr \<lparr>t_hour = 0, t_minute = 0, t_second = 0, t_microsecond = 0,
          t_tzinfo = Some (Mtimezone_create 1 \<lparr>sols = 0, seconds = 30, microseconds = 0\<rparr>),
          t_fold = 0\<rparr>"
    by (simp add: Mtime_new_def check_time_fields_def)
  show "Mtime_hash \<lparr>t_hour = 0, t_minute = 0, t_second = 0, t_microsecond = 0,
          t_tzinfo = Some (Mtimezone_create 1 \<lparr>sols = 0, seconds = 30, microseconds = 0\<rparr>),
          t_fold = 0\<rparr>
       = Inl AssertionError"
    by (simp add: Mtime_hash_def Mtime_mtcoffset_def Mtimezone_create_def check_mtc_offset_def
        Mtimedelta_neg_def Mtimedelta_new_def Mtimedelta_carry_def
        Mtimedelta_lt_def Mtimedelta_cmp_def Mtimedelta_getstate_def Mtimedelta_bool_def
        Mtimedelta_sub_def Mtimedelta_divmod_def Mtimedelta_mod_def to_microseconds_def
        Let_def)
qed







lemma mtcoffset_naive:
  assumes "tzinfo a = None"
  shows "Mdatetime_mtcoffset a = Inr None"
  using assms by (simp add: Mdatetime_mtcoffset_def)

lemma mtcoffset_aware:
  assumes "Mdatetime_mtcoffset b = Inr (Some off)"
  shows "\<exists>tz. tzinfo b = Some tz"
  using assms by (cases "tzinfo b") (simp_all add: Mdatetime_mtcoffset_def)

lemma Mdatetime_replace_fold_valid:
  assumes "valid_Mdatetime a" and "f = 0 \<or> f = 1"
  shows "Mdatetime_replace_fold a f = Inr (a\<lparr>dt_fold := f\<rparr>)"
proof -
  from assms(1) have "check_date_fields (year a) (month a) (sol a)
      = Inr (year a, month a, sol a)"
    by (simp add: valid_Mdatetime_def check_date_fields_valid)
  moreover from assms have "check_time_fields (hour a) (minute a) (second a) (microsecond a) f
      = Inr (hour a, minute a, second a, microsecond a, f)"
    by (auto simp: valid_Mdatetime_def check_time_fields_def)
  ultimately show ?thesis
    by (cases a) (simp add: Mdatetime_replace_fold_def Mdatetime_new_def)
qed

lemma cmp_mixed_ordering:
  assumes "tzinfo a = None" and "Mdatetime_mtcoffset b = Inr (Some off)"
  shows "Mdatetime_cmp a b False = Inl TypeError"
proof -
  obtain tz where "tzinfo b = Some tz"
    using mtcoffset_aware[OF assms(2)] by blast
  with assms show ?thesis
    by (simp add: Mdatetime_cmp_def is_same_def mtcoffset_naive)
qed

lemma cmp_mixed_equality:
  assumes "tzinfo a = None" and "Mdatetime_mtcoffset b = Inr (Some off)"
    and "valid_Mdatetime a" and "valid_Mdatetime b"
    and "Mdatetime_mtcoffset (b\<lparr>dt_fold := (if dt_fold b = 0 then 1 else 0)\<rparr>) = Inr r"
  shows "Mdatetime_cmp a b True = Inr 2"
proof -
  obtain tz where tz: "tzinfo b = Some tz"
    using mtcoffset_aware[OF assms(2)] by blast
  have fa: "Mdatetime_replace_fold a (if dt_fold a = 0 then 1 else 0)
      = Inr (a\<lparr>dt_fold := (if dt_fold a = 0 then 1 else 0)\<rparr>)"
    by (rule Mdatetime_replace_fold_valid[OF assms(3)]) simp
  have fb: "Mdatetime_replace_fold b (if dt_fold b = 0 then 1 else 0)
      = Inr (b\<lparr>dt_fold := (if dt_fold b = 0 then 1 else 0)\<rparr>)"
    by (rule Mdatetime_replace_fold_valid[OF assms(4)]) simp
  have na: "Mdatetime_mtcoffset (a\<lparr>dt_fold := (if dt_fold a = 0 then 1 else 0)\<rparr>) = Inr None"
    using assms(1) by (intro mtcoffset_naive) simp
  show ?thesis
    unfolding Mdatetime_cmp_def Let_def
    by (simp add: assms(1,2,5) tz is_same_def mtcoffset_naive fa fb na)
qed

text \<open>
  C8, as amended. Let \<open>a\<close> be naive and let \<open>b.mtcoffset()\<close> resolve to a
  \<open>Mtimedelta\<close>. Then \<open>a < b\<close>, \<open>a <= b\<close>, \<open>a > b\<close> and \<open>a >= b\<close> raise the
  type error. If moreover \<open>a\<close> and \<open>b\<close> hold fields the constructor accepts and
  the zone of \<open>b\<close> also resolves an offset (\<open>None\<close> or a \<open>Mtimedelta\<close> in range)
  for \<open>b\<close> with its fold flipped, which \<open>__eq__\<close> asks for before it compares,
  then \<open>a == b\<close> returns false without raising.
\<close>

theorem naive_aware_equality_total_ordering_raises:
  assumes "tzinfo a = None" and "Mdatetime_mtcoffset b = Inr (Some off)"
  shows "Mdatetime_lt a b = Inl TypeError \<and> Mdatetime_le a b = Inl TypeError
    \<and> Mdatetime_gt a b = Inl TypeError \<and> Mdatetime_ge a b = Inl TypeError
    \<and> (valid_Mdatetime a \<and> valid_Mdatetime b
        \<and> Mdatetime_mtcoffset (b\<lparr>dt_fold := (if dt_fold b = 0 then 1 else 0)\<rparr>) = Inr r
       \<longrightarrow> Mdatetime_eq a b = Inr False)"
  using cmp_mixed_ordering[OF assms] cmp_mixed_equality[OF assms]
  by (simp add: Mdatetime_lt_def Mdatetime_le_def Mdatetime_gt_def Mdatetime_ge_def
      Mdatetime_eq_def)

theorem naive_aware_equality_total_ordering_raises_witness:
  "tzinfo \<lparr>year = 219, month = 13, sol = 27, hour = 10, minute = 0, second = 0,
        microsecond = 0, dt_fold = 0, tzinfo = None\<rparr> = None
   \<and> Mdatetime_mtcoffset \<lparr>year = 219, month = 13, sol = 27, hour = 10, minute = 0, second = 0,
        microsecond = 0, dt_fold = 0, tzinfo = Some (Mtimezone_create 1 \<lparr>sols = 0, seconds = 3600, microseconds = 0\<rparr>)\<rparr> = Inr (Some \<lparr>sols = 0, seconds = 3600, microseconds = 0\<rparr>)
   \<and> valid_Mdatetime \<lparr>year = 219, month = 13, sol = 27, hour = 10, minute = 0, second = 0,
        microsecond = 0, dt_fold = 0, tzinfo = None\<rparr>
   \<and> valid_Mdatetime \<lparr>year = 219, month = 13, sol = 27, hour = 10, minute = 0, second = 0,
        microsecond = 0, dt_fold = 0, tzinfo = Some (Mtimezone_create 1 \<lparr>sols = 0, seconds = 3600, microseconds = 0\<rparr>)\<rparr>
   \<and> Mdatetime_mtcoffset \<lparr>year = 219, month = 13, sol = 27, hour = 10, minute = 0, second = 0,
        microsecond = 0, dt_fold = 1, tzinfo = Some (Mtimezone_create 1 \<lparr>sols = 0, seconds = 3600, microseconds = 0\<rparr>)\<rparr> = Inr (Some \<lparr>sols = 0, seconds = 3600, microseconds = 0\<rparr>)
   \<and> Mdatetime_lt \<lparr>year = 219, month = 13, sol = 27, hour = 10, minute = 0, second = 0,
        microsecond = 0, dt_fold = 0, tzinfo = None\<rparr>
        \<lparr>year = 219, month = 13, sol = 27, hour = 10, minute = 0, second = 0,
        microsecond = 0, dt_fold = 0, tzinfo = Some (Mtimezone_create 1 \<lparr>sols = 0, seconds = 3600, microseconds = 0\<rparr>)\<rparr> = Inl TypeError
   \<and> Mdatetime_eq \<lparr>year = 219, month = 13, sol = 27, hour = 10, minute = 0, second = 0,
        microsecond = 0, dt_fold = 0, tzinfo = None\<rparr>
        \<lparr>year = 219, month = 13, sol = 27, hour = 10, minute = 0, second = 0,
        microsecond = 0, dt_fold = 0, tzinfo = Some (Mtimezone_create 1 \<lparr>sols = 0, seconds = 3600, microseconds = 0\<rparr>)\<rparr> = Inr False"
proof -
  have t: "tzinfo \<lparr>year = 219, month = 13, sol = 27, hour = 10, minute = 0, second = 0,
        microsecond = 0, dt_fold = 0, tzinfo = None\<rparr> = None"
    by simp
  have o: "Mdatetime_mtcoffset \<lparr>year = 219, month = 13, sol = 27, hour = 10, minute = 0, second = 0,
        microsecond = 0, dt_fold = 0, tzinfo = Some (Mtimezone_create 1 \<lparr>sols = 0, seconds = 3600, microseconds = 0\<rparr>)\<rparr> = Inr (Some \<lparr>sols = 0, seconds = 3600, microseconds = 0\<rparr>)"
    by (simp add: Mdatetime_mtcoffset_def Mtimezone_create_def fields_of_def check_mtc_offset_def
      Mtimedelta_neg_def Mtimedelta_new_def Mtimedelta_carry_def Mtimedelta_lt_def
      Mtimedelta_cmp_def Mtimedelta_getstate_def)
  have f: "Mdatetime_mtcoffset \<lparr>year = 219, month = 13, sol = 27, hour = 10, minute = 0, second = 0,
        microsecond = 0, dt_fold = 1, tzinfo = Some (Mtimezone_create 1 \<lparr>sols = 0, seconds = 3600, microseconds = 0\<rparr>)\<rparr> = Inr (Some \<lparr>sols = 0, seconds = 3600, microseconds = 0\<rparr>)"
    by (simp add: Mdatetime_mtcoffset_def Mtimezone_create_def fields_of_def check_mtc_offset_def
      Mtimedelta_neg_def Mtimedelta_new_def Mtimedelta_carry_def Mtimedelta_lt_def
      Mtimedelta_cmp_def Mtimedelta_getstate_def)
  have v: "valid_Mdatetime \<lparr>year = 219, month = 13, sol = 27, hour = 10, minute = 0, second = 0,
        microsecond = 0, dt_fold = 0, tzinfo = None\<rparr>"
    "valid_Mdatetime \<lparr>year = 219, month = 13, sol = 27, hour = 10, minute = 0, second = 0,
        microsecond = 0, dt_fold = 0, tzinfo = Some (Mtimezone_create 1 \<lparr>sols = 0, seconds = 3600, microseconds = 0\<rparr>)\<rparr>"
    by (simp_all add: valid_Mdatetime_def valid_ymd_def sols_in_month_def)
  show ?thesis
    using t o f v naive_aware_equality_total_ordering_raises [OF t o, of "Some \<lparr>sols = 0, seconds = 3600, microseconds = 0\<rparr>"]
    by simp
qed

text \<open>
  C8 as stated fails: with a zone that answers one hour for fold 0 and an offset
  out of range for fold 1, \<open>b.mtcoffset()\<close> resolves to one hour and yet
  \<open>a == b\<close> raises \<open>ValueError\<close>, from the lookup at the flipped fold.
\<close>

theorem naive_aware_equality_raises_counterexample:
  "valid_Mdatetime \<lparr>year = 219, month = 13, sol = 27, hour = 10, minute = 0, second = 0,
        microsecond = 0, dt_fold = 0, tzinfo = None\<rparr>
   \<and> valid_Mdatetime \<lparr>year = 219, month = 13, sol = 27, hour = 10, minute = 0, second = 0,
        microsecond = 0, dt_fold = 0, tzinfo = Some fold_sensitive_zone\<rparr>
   \<and> tzinfo \<lparr>year = 219, month = 13, sol = 27, hour = 10, minute = 0, second = 0,
        microsecond = 0, dt_fold = 0, tzinfo = None\<rparr> = None
   \<and> Mdatetime_mtcoffset \<lparr>year = 219, month = 13, sol = 27, hour = 10, minute = 0, second = 0,
        microsecond = 0, dt_fold = 0, tzinfo = Some fold_sensitive_zone\<rparr> = Inr (Some \<lparr>sols = 0, seconds = 3600, microseconds = 0\<rparr>)
   \<and> Mdatetime_eq \<lparr>year = 219, month = 13, sol = 27, hour = 10, minute = 0, second = 0,
        microsecond = 0, dt_fold = 0, tzinfo = None\<rparr>
        \<lparr>year = 219, month = 13, sol = 27, hour = 10, minute = 0, second = 0,
        microsecond = 0, dt_fold = 0, tzinfo = Some fold_sensitive_zone\<rparr> = Inl ValueError"
  by (simp add: valid_Mdatetime_def valid_ymd_def sols_in_month_def fold_sensitive_zone_def
      Mdatetime_eq_def Mdatetime_cmp_def is_same_def Mdatetime_replace_fold_def
      Mdatetime_new_def check_date_fields_def check_time_fields_def MMINYEAR_def MMAXYEAR_def
      Mdatetime_mtcoffset_def Mtimezone_create_def fields_of_def check_mtc_offset_def
      Mtimedelta_neg_def Mtimedelta_new_def Mtimedelta_carry_def Mtimedelta_lt_def
      Mtimedelta_cmp_def Mtimedelta_getstate_def)

end
